theory Spec2Isabelle
  imports Complex_Main "HOL-Library.AList" "HOL-Library.Log_Nat"
begin

section \<open>Safety filter (lerobot_gui/services/safety_filter.py)\<close>

text \<open>
  A Python \<open>dict\<close> is an association list in insertion order whose keys are distinct;
  \<open>d[k]\<close> and \<open>k in d\<close> read it through \<open>map_of\<close>, and the store \<open>d[k] = v\<close> is
  \<open>AList.update\<close> (it overwrites in place, or appends a new key at the end).
  In this model of the filter object Python floats are real numbers: arithmetic and
  comparisons are exact.  Rounding, infinities and NaN are modelled in the section on double
  precision below, which has \<open>filter_action\<close> a second time, on floats.  The clock \<open>time.time()\<close> is an argument
  \<open>now\<close> of every method that reads it.  Logging is left out of the filter's model.
  The dict that \<open>filter_action\<close> returns is the object it keeps as \<open>self._last_action\<close>;
  the caller is taken not to modify it.
\<close>

type_synonym action = "(string \<times> real) list"

record SafetyFilter =
  joint_limits :: "(string \<times> (real \<times> real)) list"
  max_velocity :: real
  deadzone :: real
  timeout_ms :: real
  last_action :: action
  last_input_time :: real
  enabled :: bool
  e_stopped :: bool

text \<open>\<open>__init__\<close>: \<open>joint_limits or {}\<close> turns both \<open>None\<close> and the empty dict into \<open>{}\<close>.\<close>

definition SafetyFilter_init ::
  "(string \<times> (real \<times> real)) list option \<Rightarrow> real \<Rightarrow> real \<Rightarrow> real \<Rightarrow> real \<Rightarrow> SafetyFilter" where
  "SafetyFilter_init limits mv dz tmo now =
     \<lparr> joint_limits = (case limits of None \<Rightarrow> [] | Some d \<Rightarrow> d),
       max_velocity = mv,
       deadzone = dz,
       timeout_ms = tmo,
       last_action = [],
       last_input_time = now,
       enabled = True,
       e_stopped = False \<rparr>"

definition is_e_stopped :: "SafetyFilter \<Rightarrow> bool" where
  "is_e_stopped self = e_stopped self"

definition set_e_stop :: "bool \<Rightarrow> SafetyFilter \<Rightarrow> SafetyFilter" where
  "set_e_stop active self = self\<lparr>e_stopped := active\<rparr>"

text \<open>
  \<open>s.replace(old, "")\<close>: every non-overlapping occurrence of \<open>old\<close>, found from the left,
  is deleted; with an empty \<open>old\<close> the string is returned as it is.
\<close>

function str_remove :: "string \<Rightarrow> string \<Rightarrow> string" where
  "str_remove old [] = []"
| "str_remove old (c # cs) =
     (if old \<noteq> [] \<and> take (length old) (c # cs) = old
      then str_remove old (drop (length old - 1) cs)
      else c # str_remove old cs)"
  by pat_completeness auto
termination
  by (relation "measure (\<lambda>(old, s). length s)") auto

text \<open>The three steps of the loop body of \<open>filter_action\<close>, in the order of the source.\<close>

definition clamp_to_limits :: "(string \<times> (real \<times> real)) list \<Rightarrow> string \<Rightarrow> real \<Rightarrow> real" where
  "clamp_to_limits limits key v =
     (let joint_name = str_remove ''.pos'' key
      in case map_of limits joint_name of
           Some (lo, hi) \<Rightarrow> max lo (min hi v)
         | None \<Rightarrow> v)"

definition velocity_limit :: "SafetyFilter \<Rightarrow> string \<Rightarrow> real \<Rightarrow> real" where
  "velocity_limit self key v =
     (case map_of (last_action self) key of
        Some prev \<Rightarrow>
          (let delta = v - prev
           in if \<bar>delta\<bar> > max_velocity self
              then prev + max_velocity self * (if delta > 0 then 1 else - 1)
              else v)
      | None \<Rightarrow> v)"

definition dead_zone :: "SafetyFilter \<Rightarrow> string \<Rightarrow> real \<Rightarrow> real" where
  "dead_zone self key v =
     (case map_of (last_action self) key of
        Some prev \<Rightarrow> if \<bar>v - prev\<bar> < deadzone self then prev else v
      | None \<Rightarrow> v)"

definition filter_channel :: "SafetyFilter \<Rightarrow> string \<Rightarrow> real \<Rightarrow> real" where
  "filter_channel self key v =
     dead_zone self key (velocity_limit self key (clamp_to_limits (joint_limits self) key v))"

text \<open>
  The loop \<open>for key, value in action.items()\<close>: \<open>self._last_action\<close> is the dict of the
  previous call throughout, the results go into the fresh dict \<open>filtered\<close>.
\<close>

fun filter_loop :: "SafetyFilter \<Rightarrow> action \<Rightarrow> action \<Rightarrow> action" where
  "filter_loop self [] filtered = filtered"
| "filter_loop self ((key, v) # rest) filtered =
     filter_loop self rest (AList.update key (filter_channel self key v) filtered)"

text \<open>\<open>filter_action\<close> returns \<open>None\<close> (the action is blocked) or the filtered dict.\<close>

definition filter_action :: "real \<Rightarrow> SafetyFilter \<Rightarrow> action \<Rightarrow> action option \<times> SafetyFilter" where
  "filter_action now self act =
     (if e_stopped self then (None, self)
      else if \<not> enabled self then (Some act, self)
      else
        (let filtered = filter_loop (self\<lparr>last_input_time := now\<rparr>) act []
         in (Some filtered, self\<lparr>last_input_time := now, last_action := filtered\<rparr>)))"

definition check_timeout :: "real \<Rightarrow> SafetyFilter \<Rightarrow> bool" where
  "check_timeout now self = ((now - last_input_time self) * 1000 > timeout_ms self)"

definition reset :: "real \<Rightarrow> SafetyFilter \<Rightarrow> SafetyFilter" where
  "reset now self = self\<lparr>last_action := [], last_input_time := now, e_stopped := False\<rparr>"

text \<open>
  A caller's use of one filter object: any sequence of method calls, each with the clock
  value it reads.  \<open>run\<close> gives the filter's state after the sequence.
\<close>

datatype call =
    Filter_action real action
  | Set_e_stop bool
  | Check_timeout real
  | Reset real

fun exec :: "SafetyFilter \<Rightarrow> call \<Rightarrow> SafetyFilter" where
  "exec self (Filter_action now act) = snd (filter_action now self act)"
| "exec self (Set_e_stop active) = set_e_stop active self"
| "exec self (Check_timeout now) = self"
| "exec self (Reset now) = reset now self"

fun run :: "SafetyFilter \<Rightarrow> call list \<Rightarrow> SafetyFilter" where
  "run self [] = self"
| "run self (c # cs) = run (exec self c) cs"

text \<open>The calls that clear the emergency-stop flag.\<close>

fun rearms :: "call \<Rightarrow> bool" where
  "rearms (Set_e_stop active) = (\<not> active)"
| "rearms (Reset now) = True"
| "rearms (Filter_action now act) = False"
| "rearms (Check_timeout now) = False"

text \<open>
  Every remembered value is already clamped: clamping it to the range of its channel, when
  the channel has one, leaves it as it is.
\<close>

definition memory_clamped :: "SafetyFilter \<Rightarrow> bool" where
  "memory_clamped self =
     list_all (\<lambda>(key, v). clamp_to_limits (joint_limits self) key v = v) (last_action self)"

section \<open>The filter in double precision\<close>

text \<open>
  A Python float is an IEEE 754 binary64 number.  A finite one is an integer multiple of
  \<open>2\<^sup>-\<^sup>1\<^sup>0\<^sup>7\<^sup>4\<close> with at most 53 significant bits and a magnitude below \<open>2\<^sup>1\<^sup>0\<^sup>2\<^sup>4\<close>;
  \<open>Fin n\<close> is the float \<open>n \<sqdot> 2\<^sup>-\<^sup>1\<^sup>0\<^sup>7\<^sup>4\<close>, so that finite floats compare and add as the
  integers \<open>n\<close> do, and \<open>dbl m e\<close> is the float \<open>m \<sqdot> 2\<^sup>e\<close>.  The two zeros are one value,
  \<open>Fin 0\<close>: they are equal in every comparison the loop makes.

  \<open>round53\<close> rounds an integer to 53 significant bits, to the nearest and in a tie to the
  even one, as the processor rounds the exact sum of two floats.
\<close>

definition round53 :: "int \<Rightarrow> int" where
  "round53 n =
     (let k = nat (bitlen \<bar>n\<bar> - 53); q = n div 2 ^ k; r = n mod 2 ^ k
      in (if 2 * r < 2 ^ k then q
          else if 2 ^ k < 2 * r then q + 1
          else if even q then q else q + 1) * 2 ^ k)"

text \<open>An integer with at most 53 significant bits: rounding leaves it as it is.\<close>

definition is53 :: "int \<Rightarrow> bool" where
  "is53 n = (n mod 2 ^ nat (bitlen \<bar>n\<bar> - 53) = 0)"

datatype pyfloat = Fin int | PInf | NInf | NaN

definition dbl :: "int \<Rightarrow> int \<Rightarrow> pyfloat" where
  "dbl m e = Fin (m * 2 ^ nat (e + 1074))"

fun finite_double :: "pyfloat \<Rightarrow> bool" where
  "finite_double (Fin n) = (is53 n \<and> \<bar>n\<bar> < 2 ^ 2098)"
| "finite_double x = False"

text \<open>
  \<open>a < b\<close> on floats is false as soon as one of them is NaN.  Negation and \<open>abs\<close> are
  exact.
\<close>

fun flt :: "pyfloat \<Rightarrow> pyfloat \<Rightarrow> bool" where
  "flt NaN y = False"
| "flt x NaN = False"
| "flt (Fin a) (Fin b) = (a < b)"
| "flt x NInf = False"
| "flt NInf y = True"
| "flt PInf y = False"
| "flt x PInf = True"

fun fneg :: "pyfloat \<Rightarrow> pyfloat" where
  "fneg (Fin a) = Fin (- a)"
| "fneg PInf = NInf"
| "fneg NInf = PInf"
| "fneg NaN = NaN"

fun fabs :: "pyfloat \<Rightarrow> pyfloat" where
  "fabs (Fin a) = Fin \<bar>a\<bar>"
| "fabs PInf = PInf"
| "fabs NInf = PInf"
| "fabs NaN = NaN"

text \<open>
  \<open>a + b\<close> and \<open>a - b\<close>: the exact result, rounded; a rounded result of magnitude
  \<open>2\<^sup>1\<^sup>0\<^sup>2\<^sup>4\<close> or more is an infinity, and \<open>inf - inf\<close> is NaN.
\<close>

definition overflow :: "int \<Rightarrow> pyfloat" where
  "overflow n = (if 2 ^ 2098 \<le> n then PInf else if n \<le> - (2 ^ 2098) then NInf else Fin n)"

fun fadd :: "pyfloat \<Rightarrow> pyfloat \<Rightarrow> pyfloat" where
  "fadd NaN y = NaN"
| "fadd x NaN = NaN"
| "fadd (Fin a) (Fin b) = overflow (round53 (a + b))"
| "fadd PInf NInf = NaN"
| "fadd NInf PInf = NaN"
| "fadd PInf y = PInf"
| "fadd NInf y = NInf"
| "fadd x PInf = PInf"
| "fadd x NInf = NInf"

definition fsub :: "pyfloat \<Rightarrow> pyfloat \<Rightarrow> pyfloat" where
  "fsub x y = fadd x (fneg y)"

text \<open>
  Python's \<open>min(a, b)\<close> and \<open>max(a, b)\<close> keep the first argument unless the second is
  strictly smaller, respectively larger.
\<close>

definition py_min :: "pyfloat \<Rightarrow> pyfloat \<Rightarrow> pyfloat" where
  "py_min a b = (if flt b a then b else a)"

definition py_max :: "pyfloat \<Rightarrow> pyfloat \<Rightarrow> pyfloat" where
  "py_max a b = (if flt a b then b else a)"

text \<open>
  The body of the loop of \<open>filter_action\<close> for one key, on floats: \<open>limits\<close>, \<open>mv\<close> and
  \<open>dz\<close> are \<open>self.joint_limits\<close>, \<open>self.max_velocity\<close> and \<open>self.deadzone\<close>, and
  \<open>remembered\<close> is the entry of \<open>self._last_action\<close> for the key, if there is one.  In
  \<open>max_velocity * (1 if delta > 0 else -1)\<close> the product with \<open>1\<close> or \<open>-1\<close> is exact.
\<close>

definition clamp_fp :: "(string \<times> (pyfloat \<times> pyfloat)) list \<Rightarrow> string \<Rightarrow> pyfloat \<Rightarrow> pyfloat" where
  "clamp_fp limits key v =
     (let joint_name = str_remove ''.pos'' key
      in case map_of limits joint_name of
           Some (lo, hi) \<Rightarrow> py_max lo (py_min hi v)
         | None \<Rightarrow> v)"

definition velocity_limit_fp :: "pyfloat \<Rightarrow> pyfloat option \<Rightarrow> pyfloat \<Rightarrow> pyfloat" where
  "velocity_limit_fp mv remembered v =
     (case remembered of
        Some prev \<Rightarrow>
          (let delta = fsub v prev
           in if flt mv (fabs delta)
              then fadd prev (if flt (Fin 0) delta then mv else fneg mv)
              else v)
      | None \<Rightarrow> v)"

definition dead_zone_fp :: "pyfloat \<Rightarrow> pyfloat option \<Rightarrow> pyfloat \<Rightarrow> pyfloat" where
  "dead_zone_fp dz remembered v =
     (case remembered of
        Some prev \<Rightarrow> if flt (fabs (fsub v prev)) dz then prev else v
      | None \<Rightarrow> v)"

definition filter_value_fp ::
  "(string \<times> (pyfloat \<times> pyfloat)) list \<Rightarrow> pyfloat \<Rightarrow> pyfloat \<Rightarrow> pyfloat option \<Rightarrow> string \<Rightarrow> pyfloat \<Rightarrow> pyfloat" where
  "filter_value_fp limits mv dz remembered key v =
     dead_zone_fp dz remembered (velocity_limit_fp mv remembered (clamp_fp limits key v))"

text \<open>
  The filter object with float fields, its constructor and \<open>filter_action\<close>, as in the
  first section: the loop reads the dict of the previous call and fills a fresh one.
\<close>

record SafetyFilter_fp =
  joint_limits_fp :: "(string \<times> (pyfloat \<times> pyfloat)) list"
  max_velocity_fp :: pyfloat
  deadzone_fp :: pyfloat
  timeout_ms_fp :: pyfloat
  last_action_fp :: "(string \<times> pyfloat) list"
  last_input_time_fp :: pyfloat
  enabled_fp :: bool
  e_stopped_fp :: bool

definition SafetyFilter_fp_init ::
  "(string \<times> (pyfloat \<times> pyfloat)) list option \<Rightarrow> pyfloat \<Rightarrow> pyfloat \<Rightarrow> pyfloat \<Rightarrow> pyfloat
   \<Rightarrow> SafetyFilter_fp" where
  "SafetyFilter_fp_init limits mv dz tmo now =
     \<lparr> joint_limits_fp = (case limits of None \<Rightarrow> [] | Some d \<Rightarrow> d),
       max_velocity_fp = mv,
       deadzone_fp = dz,
       timeout_ms_fp = tmo,
       last_action_fp = [],
       last_input_time_fp = now,
       enabled_fp = True,
       e_stopped_fp = False \<rparr>"

definition filter_channel_fp :: "SafetyFilter_fp \<Rightarrow> string \<Rightarrow> pyfloat \<Rightarrow> pyfloat" where
  "filter_channel_fp self key v =
     filter_value_fp (joint_limits_fp self) (max_velocity_fp self) (deadzone_fp self)
       (map_of (last_action_fp self) key) key v"

fun filter_loop_fp ::
  "SafetyFilter_fp \<Rightarrow> (string \<times> pyfloat) list \<Rightarrow> (string \<times> pyfloat) list \<Rightarrow> (string \<times> pyfloat) list" where
  "filter_loop_fp self [] filtered = filtered"
| "filter_loop_fp self ((key, v) # rest) filtered =
     filter_loop_fp self rest (AList.update key (filter_channel_fp self key v) filtered)"

definition filter_action_fp ::
  "pyfloat \<Rightarrow> SafetyFilter_fp \<Rightarrow> (string \<times> pyfloat) list
   \<Rightarrow> (string \<times> pyfloat) list option \<times> SafetyFilter_fp" where
  "filter_action_fp now self act =
     (if e_stopped_fp self then (None, self)
      else if \<not> enabled_fp self then (Some act, self)
      else
        (let filtered = filter_loop_fp (self\<lparr>last_input_time_fp := now\<rparr>) act []
         in (Some filtered, self\<lparr>last_input_time_fp := now, last_action_fp := filtered\<rparr>)))"

section \<open>Robot adapters (lerobot_gui/adapters/robots)\<close>

text \<open>
  An adapter owns at most one robot handle, \<open>self._robot\<close>.  The robot behind the handle is
  hardware: what each of its methods answers is data of the handle, either a return value or
  the exception it raises.  Every adapter method gives its result (\<open>Inl\<close> the exception that
  leaves the method), the adapter afterwards, and the calls and log lines it made, in order.
  The methods run under \<open>self._lock\<close>, one at a time; the model is of one such call.

  \<open>except Exception\<close> catches what derives from \<open>Exception\<close>; \<open>KeyboardInterrupt\<close> and the
  like derive from \<open>BaseException\<close> only and pass through.
\<close>

datatype py_exn =
    DeviceNotConnectedError
  | KeyError string
  | OverflowError
  | Exception string
  | BaseException string

fun is_Exception :: "py_exn \<Rightarrow> bool" where
  "is_Exception (BaseException msg) = False"
| "is_Exception e = True"

datatype event =
    Robot_disconnect
  | Robot_send_action action
  | Robot_get_observation
  | Bus_read
  | Bus_write "real list"
  | Piper_DisableArm int
  | Piper_GripperCtrl int int int int
  | Log_warning string
  | Log_error string py_exn

subsection \<open>GenericRobotAdapter (generic_adapter.py)\<close>

text \<open>
  A value of an observation is a number (an \<open>int\<close>, a \<open>float\<close> or a \<open>bool\<close>, which is
  an \<open>int\<close>), given by what \<open>float(v)\<close> makes of it: a float, or the \<open>OverflowError\<close> of
  an \<open>int\<close> too large for one; or it is something else (a camera frame).
\<close>

datatype obs_value = Obs_number "py_exn + real" | Obs_other

text \<open>
  \<open>{k: float(v) for k, v in obs.items() if isinstance(v, (int, float))}\<close>: the first
  conversion that raises ends the comprehension.
\<close>

fun numeric_items :: "(string \<times> obs_value) list \<Rightarrow> py_exn + action" where
  "numeric_items [] = Inr []"
| "numeric_items ((k, Obs_other) # rest) = numeric_items rest"
| "numeric_items ((k, Obs_number (Inl e)) # rest) = Inl e"
| "numeric_items ((k, Obs_number (Inr x)) # rest) =
     (case numeric_items rest of Inl e \<Rightarrow> Inl e | Inr xs \<Rightarrow> Inr ((k, x) # xs))"

record Robot =
  robot_is_connected :: bool
  robot_disconnect :: "py_exn option"
  robot_send_action :: "action \<Rightarrow> py_exn + action"
  robot_get_observation :: "py_exn + (string \<times> obs_value) list"

record GenericRobotAdapter =
  generic_robot :: "Robot option"
  generic_robot_type :: string

definition GenericRobotAdapter_init :: GenericRobotAdapter where
  "GenericRobotAdapter_init = \<lparr> generic_robot = None, generic_robot_type = [] \<rparr>"

definition generic_is_connected :: "GenericRobotAdapter \<Rightarrow> bool" where
  "generic_is_connected self =
     (case generic_robot self of None \<Rightarrow> False | Some r \<Rightarrow> robot_is_connected r)"

definition generic_get_state ::
  "GenericRobotAdapter \<Rightarrow> (py_exn + action) \<times> GenericRobotAdapter \<times> event list" where
  "generic_get_state self =
     (case generic_robot self of
        None \<Rightarrow> (Inr [], self, [])
      | Some r \<Rightarrow>
          (case robot_get_observation r of
             Inl e \<Rightarrow> (Inl e, self, [Robot_get_observation])
           | Inr obs \<Rightarrow> (numeric_items obs, self, [Robot_get_observation])))"

definition generic_send_action ::
  "GenericRobotAdapter \<Rightarrow> action \<Rightarrow> (py_exn + action) \<times> GenericRobotAdapter \<times> event list" where
  "generic_send_action self act =
     (case generic_robot self of
        None \<Rightarrow> (Inr act, self, [])
      | Some r \<Rightarrow> (robot_send_action r act, self, [Robot_send_action act]))"

text \<open>\<open>try: disconnect() except Exception: log finally: self._robot = None\<close>.\<close>

definition generic_emergency_stop ::
  "GenericRobotAdapter \<Rightarrow> (py_exn + unit) \<times> GenericRobotAdapter \<times> event list" where
  "generic_emergency_stop self =
     (case generic_robot self of
        None \<Rightarrow> (Inr (), self, [])
      | Some r \<Rightarrow>
          (case robot_disconnect r of
             None \<Rightarrow> (Inr (), self\<lparr>generic_robot := None\<rparr>, [Robot_disconnect])
           | Some e \<Rightarrow>
               if is_Exception e
               then (Inr (), self\<lparr>generic_robot := None\<rparr>,
                     [Robot_disconnect, Log_error ''Emergency stop error'' e])
               else (Inl e, self\<lparr>generic_robot := None\<rparr>, [Robot_disconnect])))"

subsection \<open>PiperFollower (piper_follower.py) and PiperRobotAdapter (piper_adapter.py)\<close>

text \<open>
  The bus class \<open>PiperMotorsBus\<close> is not among the sources: its answers, and whether the
  object counts as true in a condition (\<open>bus_truthy\<close>), are data of the handle.  What
  \<open>bus.read()\<close> returns are floats, which \<open>float(v)\<close> leaves as they are.
\<close>

record PiperMotorsBus =
  bus_truthy :: bool
  bus_is_connected :: bool
  bus_read :: "py_exn + (string \<times> real) list"
  bus_write :: "real list \<Rightarrow> py_exn option"
  piper_DisableArm :: "int \<Rightarrow> py_exn option"
  piper_GripperCtrl :: "int \<Rightarrow> int \<Rightarrow> int \<Rightarrow> int \<Rightarrow> py_exn option"

record PiperFollower =
  bus :: PiperMotorsBus
  is_connected_flag :: bool
  cameras_connected :: "bool list"

text \<open>\<open>__init__\<close>: a new follower has its bus and its cameras and is not connected.\<close>

definition PiperFollower_init :: "PiperMotorsBus \<Rightarrow> bool list \<Rightarrow> PiperFollower" where
  "PiperFollower_init b cams = \<lparr> bus = b, is_connected_flag = False, cameras_connected = cams \<rparr>"

definition follower_is_connected :: "PiperFollower \<Rightarrow> bool" where
  "follower_is_connected self = (bus_is_connected (bus self) \<and> list_all id (cameras_connected self))"

definition motor_order :: "string list" where
  "motor_order = [''joint_1'', ''joint_2'', ''joint_3'', ''joint_4'', ''joint_5'', ''joint_6'', ''gripper'']"

text \<open>\<open>[action[f"{motor}.pos"] for motor in motor_order]\<close>: the first missing key raises.\<close>

fun target_joints :: "action \<Rightarrow> string list \<Rightarrow> py_exn + real list" where
  "target_joints act [] = Inr []"
| "target_joints act (motor # rest) =
     (case map_of act (motor @ ''.pos'') of
        None \<Rightarrow> Inl (KeyError (motor @ ''.pos''))
      | Some v \<Rightarrow> (case target_joints act rest of Inl e \<Rightarrow> Inl e | Inr vs \<Rightarrow> Inr (v # vs)))"

definition follower_send_action :: "PiperFollower \<Rightarrow> action \<Rightarrow> (py_exn + action) \<times> event list" where
  "follower_send_action self act =
     (if \<not> is_connected_flag self then (Inl DeviceNotConnectedError, [])
      else case target_joints act motor_order of
             Inl e \<Rightarrow> (Inl e, [])
           | Inr target \<Rightarrow>
               (case bus_write (bus self) target of
                  Some e \<Rightarrow> (Inl e, [Bus_write target])
                | None \<Rightarrow> (Inr act, [Bus_write target])))"

record PiperRobotAdapter =
  piper_robot :: "PiperFollower option"

definition PiperRobotAdapter_init :: PiperRobotAdapter where
  "PiperRobotAdapter_init = \<lparr> piper_robot = None \<rparr>"

definition piper_is_connected :: "PiperRobotAdapter \<Rightarrow> bool" where
  "piper_is_connected self =
     (case piper_robot self of None \<Rightarrow> False | Some r \<Rightarrow> follower_is_connected r)"

text \<open>
  \<open>if not self._robot\<close>: \<open>None\<close> is false, and a \<open>PiperFollower\<close> object is true (the
  class defines neither \<open>__bool__\<close> nor \<open>__len__\<close>).
\<close>

definition piper_get_state ::
  "PiperRobotAdapter \<Rightarrow> (py_exn + action) \<times> PiperRobotAdapter \<times> event list" where
  "piper_get_state self =
     (case piper_robot self of
        None \<Rightarrow> (Inr [], self, [])
      | Some r \<Rightarrow>
          (case bus_read (bus r) of
             Inl e \<Rightarrow> (Inl e, self, [Bus_read])
           | Inr state \<Rightarrow> (Inr (map (\<lambda>(k, v). (k @ ''.pos'', v)) state), self, [Bus_read])))"

definition piper_send_action ::
  "PiperRobotAdapter \<Rightarrow> action \<Rightarrow> (py_exn + action) \<times> PiperRobotAdapter \<times> event list" where
  "piper_send_action self act =
     (case piper_robot self of
        None \<Rightarrow> (Inr act, self, [])
      | Some r \<Rightarrow> (fst (follower_send_action r act), self, snd (follower_send_action r act)))"

text \<open>
  \<open>if self._robot and self._robot.bus:\<close> guards the whole body, the assignment
  \<open>self._robot = None\<close> included; the assignment comes after the \<open>try\<close> statement, so an
  exception that \<open>except Exception\<close> lets through leaves the handle in place.
\<close>

definition piper_emergency_stop ::
  "PiperRobotAdapter \<Rightarrow> (py_exn + unit) \<times> PiperRobotAdapter \<times> event list" where
  "piper_emergency_stop self =
     (case piper_robot self of
        None \<Rightarrow> (Inr (), self, [])
      | Some r \<Rightarrow>
          if \<not> bus_truthy (bus r) then (Inr (), self, [])
          else
            (case piper_DisableArm (bus r) 7 of
               Some e \<Rightarrow>
                 if is_Exception e
                 then (Inr (), self\<lparr>piper_robot := None\<rparr>,
                       [Piper_DisableArm 7, Log_error ''E-STOP error'' e])
                 else (Inl e, self, [Piper_DisableArm 7])
             | None \<Rightarrow>
                 (case piper_GripperCtrl (bus r) 0 1000 2 0 of
                    Some e \<Rightarrow>
                      if is_Exception e
                      then (Inr (), self\<lparr>piper_robot := None\<rparr>,
                            [Piper_DisableArm 7, Piper_GripperCtrl 0 1000 2 0,
                             Log_error ''E-STOP error'' e])
                      else (Inl e, self, [Piper_DisableArm 7, Piper_GripperCtrl 0 1000 2 0])
                  | None \<Rightarrow>
                      (Inr (), self\<lparr>piper_robot := None\<rparr>,
                       [Piper_DisableArm 7, Piper_GripperCtrl 0 1000 2 0,
                        Log_warning ''PIPER E-STOP: arm disabled'']))))"

text \<open>The bus of the handle, when there is a handle, counts as true.\<close>

definition piper_bus_truthy :: "PiperRobotAdapter \<Rightarrow> bool" where
  "piper_bus_truthy self =
     (case piper_robot self of None \<Rightarrow> True | Some r \<Rightarrow> bus_truthy (bus r))"

section \<open>Properties of the safety filter\<close>

subsection \<open>One channel\<close>

lemma clamp_idem:
  "clamp_to_limits limits key (clamp_to_limits limits key v) = clamp_to_limits limits key v"
  by (auto simp: clamp_to_limits_def split: option.splits)

lemma clamp_between:
  assumes "clamp_to_limits limits key a = a" and "clamp_to_limits limits key b = b"
    and "a \<le> x" and "x \<le> b"
  shows "clamp_to_limits limits key x = x"
  using assms by (auto simp: clamp_to_limits_def max_def min_def split: option.splits if_splits)


lemma clamp_fixed_in_range:
  assumes "clamp_to_limits limits key v = v"
    and "map_of limits (str_remove ''.pos'' key) = Some (lo, hi)" and "lo \<le> hi"
  shows "lo \<le> v \<and> v \<le> hi"
  using assms by (auto simp: clamp_to_limits_def max_def min_def split: if_splits)

lemma memory_clampedD:
  "memory_clamped self \<Longrightarrow> map_of (last_action self) key = Some prev \<Longrightarrow>
   clamp_to_limits (joint_limits self) key prev = prev"
  by (auto simp: memory_clamped_def list_all_iff dest!: map_of_SomeD)

lemma velocity_limit_clamped:
  assumes "0 \<le> max_velocity self" and "memory_clamped self"
    and "clamp_to_limits (joint_limits self) key v = v"
  shows "clamp_to_limits (joint_limits self) key (velocity_limit self key v) = velocity_limit self key v"
proof (cases "map_of (last_action self) key")
  case None
  with assms(3) show ?thesis by (simp add: velocity_limit_def)
next
  case (Some prev)
  with assms(2) have prev: "clamp_to_limits (joint_limits self) key prev = prev"
    by (rule memory_clampedD)
  show ?thesis
  proof (cases "\<bar>v - prev\<bar> > max_velocity self")
    case False
    with Some assms(3) show ?thesis by (simp add: velocity_limit_def)
  next
    case True
    show ?thesis
    proof (cases "v - prev > 0")
      case up: True
      with True assms(1) have "prev \<le> prev + max_velocity self" "prev + max_velocity self \<le> v"
        by auto
      with prev assms(3) have
        "clamp_to_limits (joint_limits self) key (prev + max_velocity self) = prev + max_velocity self"
        by (rule clamp_between)
      with Some True up show ?thesis by (simp add: velocity_limit_def)
    next
      case down: False
      with True assms(1) have "v \<le> prev - max_velocity self" "prev - max_velocity self \<le> prev"
        by auto
      with assms(3) prev have
        "clamp_to_limits (joint_limits self) key (prev - max_velocity self) = prev - max_velocity self"
        by (rule clamp_between)
      with Some True down show ?thesis by (simp add: velocity_limit_def)
    qed
  qed
qed

lemma dead_zone_clamped:
  assumes "memory_clamped self" and "clamp_to_limits (joint_limits self) key v = v"
  shows "clamp_to_limits (joint_limits self) key (dead_zone self key v) = dead_zone self key v"
  using assms by (auto simp: dead_zone_def split: option.splits dest: memory_clampedD)

lemma filter_channel_clamped:
  assumes "0 \<le> max_velocity self" and "memory_clamped self"
  shows "clamp_to_limits (joint_limits self) key (filter_channel self key v) = filter_channel self key v"
  unfolding filter_channel_def
  using assms by (intro dead_zone_clamped velocity_limit_clamped clamp_idem)

subsection \<open>The loop\<close>

lemma filter_loop_keys:
  "fst ` set (filter_loop self act acc) = fst ` set acc \<union> fst ` set act"
  by (induction self act acc rule: filter_loop.induct) (auto simp: dom_update)

lemma filter_loop_distinct:
  "distinct (map fst acc) \<Longrightarrow> distinct (map fst (filter_loop self act acc))"
  by (induction self act acc rule: filter_loop.induct) (auto simp: distinct_update)

lemma filter_loop_source:
  "map_of (filter_loop self act acc) key = Some v \<Longrightarrow>
   (\<exists>raw. (key, raw) \<in> set act \<and> v = filter_channel self key raw) \<or> map_of acc key = Some v"
proof (induction self act acc rule: filter_loop.induct)
  case (1 self filtered)
  then show ?case by simp
next
  case (2 self k x rest filtered)
  from "2.IH" [OF "2.prems" [simplified]] show ?case
    by (auto simp: update_conv' split: if_splits)
qed



lemma update_fresh: "k \<notin> fst ` set al \<Longrightarrow> AList.update k v al = al @ [(k, v)]"
  by (induction al) auto

lemma filter_loop_append:
  "distinct (map fst act) \<Longrightarrow> fst ` set act \<inter> fst ` set acc = {} \<Longrightarrow>
   filter_loop self act acc = acc @ map (\<lambda>(k, v). (k, filter_channel self k v)) act"
proof (induction self act acc rule: filter_loop.induct)
  case (1 self filtered)
  then show ?case by simp
next
  case (2 self k x rest filtered)
  from "2.prems" have fresh: "k \<notin> fst ` set filtered" by auto
  from "2.prems" have "distinct (map fst rest)"
    and "fst ` set rest \<inter> fst ` set (filtered @ [(k, filter_channel self k x)]) = {}"
    by auto
  with "2.IH" fresh show ?case by (simp add: update_fresh)
qed

lemma filter_loop_map:
  "distinct (map fst act) \<Longrightarrow>
   filter_loop self act [] = map (\<lambda>(k, v). (k, filter_channel self k v)) act"
  by (simp add: filter_loop_append)

subsection \<open>What a sequence of calls preserves\<close>

lemma filter_channel_touch [simp]:
  "filter_channel (self\<lparr>last_input_time := t\<rparr>) key v = filter_channel self key v"
  by (simp add: filter_channel_def dead_zone_def velocity_limit_def Let_def split: option.splits)

lemma filter_loop_touch [simp]:
  "filter_loop (self\<lparr>last_input_time := t\<rparr>) act acc = filter_loop self act acc"
  by (induction self act acc rule: filter_loop.induct) simp_all

lemma filter_action_armed:
  "\<not> e_stopped self \<Longrightarrow> enabled self \<Longrightarrow>
   filter_action now self act =
     (Some (filter_loop self act []),
      self\<lparr>last_input_time := now, last_action := filter_loop self act []\<rparr>)"
  by (simp add: filter_action_def Let_def)

lemma filter_action_tripped: "e_stopped self \<Longrightarrow> filter_action now self act = (None, self)"
  by (simp add: filter_action_def)

lemma exec_config:
  "joint_limits (exec self c) = joint_limits self"
  "max_velocity (exec self c) = max_velocity self"
  "deadzone (exec self c) = deadzone self"
  "timeout_ms (exec self c) = timeout_ms self"
  "enabled (exec self c) = enabled self"
  by (cases c; simp add: filter_action_def Let_def set_e_stop_def reset_def)+

lemma run_config:
  "joint_limits (run self cs) = joint_limits self"
  "max_velocity (run self cs) = max_velocity self"
  "deadzone (run self cs) = deadzone self"
  "timeout_ms (run self cs) = timeout_ms self"
  "enabled (run self cs) = enabled self"
  by (induction cs arbitrary: self; simp add: exec_config)+

lemma filter_loop_clamped:
  assumes "0 \<le> max_velocity self" and "memory_clamped self"
  shows "memory_clamped (self\<lparr>last_input_time := now, last_action := filter_loop self act []\<rparr>)"
proof -
  have "clamp_to_limits (joint_limits self) key v = v"
    if "(key, v) \<in> set (filter_loop self act [])" for key v
  proof -
    have "distinct (map fst (filter_loop self act []))"
      by (rule filter_loop_distinct) simp
    with that have "map_of (filter_loop self act []) key = Some v" by simp
    then obtain raw where "v = filter_channel self key raw"
      by (auto dest: filter_loop_source)
    with assms show ?thesis by (simp add: filter_channel_clamped)
  qed
  then show ?thesis
    by (auto simp: memory_clamped_def list_all_iff)
qed

lemma exec_clamped:
  assumes "0 \<le> max_velocity self" and "memory_clamped self"
  shows "memory_clamped (exec self c)"
proof (cases c)
  case (Filter_action now act)
  show ?thesis
  proof (cases "\<not> e_stopped self \<and> enabled self")
    case True
    with assms Filter_action show ?thesis
      by (simp add: filter_action_armed filter_loop_clamped)
  next
    case False
    with assms(2) Filter_action show ?thesis
      by (auto simp: filter_action_def)
  qed
next
  case (Set_e_stop active)
  with assms(2) show ?thesis by (simp add: set_e_stop_def memory_clamped_def)
next
  case (Check_timeout now)
  with assms(2) show ?thesis by simp
next
  case (Reset now)
  then show ?thesis by (simp add: reset_def memory_clamped_def)
qed

lemma run_clamped:
  "0 \<le> max_velocity self \<Longrightarrow> memory_clamped self \<Longrightarrow> memory_clamped (run self cs)"
  by (induction cs arbitrary: self) (simp_all add: exec_clamped exec_config)

lemma init_fields [simp]:
  "joint_limits (SafetyFilter_init (Some limits) mv dz tmo t0) = limits"
  "joint_limits (SafetyFilter_init None mv dz tmo t0) = []"
  "max_velocity (SafetyFilter_init jl mv dz tmo t0) = mv"
  "deadzone (SafetyFilter_init jl mv dz tmo t0) = dz"
  "timeout_ms (SafetyFilter_init jl mv dz tmo t0) = tmo"
  "last_action (SafetyFilter_init jl mv dz tmo t0) = []"
  "last_input_time (SafetyFilter_init jl mv dz tmo t0) = t0"
  "enabled (SafetyFilter_init jl mv dz tmo t0)"
  "\<not> e_stopped (SafetyFilter_init jl mv dz tmo t0)"
  by (simp_all add: SafetyFilter_init_def)

lemma reachable_facts:
  assumes "self = run (SafetyFilter_init jl mv dz tmo t0) cs"
  shows "enabled self" "max_velocity self = mv" "deadzone self = dz"
    "joint_limits self = (case jl of None \<Rightarrow> [] | Some d \<Rightarrow> d)"
  using assms by (simp_all add: run_config SafetyFilter_init_def)

lemma reachable_clamped:
  assumes "self = run (SafetyFilter_init jl mv dz tmo t0) cs" and "0 \<le> mv"
  shows "memory_clamped self"
proof -
  have "memory_clamped (SafetyFilter_init jl mv dz tmo t0)"
    by (simp add: memory_clamped_def)
  with assms show ?thesis by (simp add: run_clamped)
qed

lemma filter_action_Some:
  assumes "enabled self" and "fst (filter_action now self act) = Some out"
  shows "\<not> e_stopped self" "out = filter_loop self act []"
    "snd (filter_action now self act) = self\<lparr>last_input_time := now, last_action := out\<rparr>"
  using assms by (auto simp: filter_action_def Let_def split: if_splits)

lemmas eval_filter = SafetyFilter_init_def filter_action_def Let_def filter_channel_def
  dead_zone_def velocity_limit_def clamp_to_limits_def set_e_stop_def reset_def

subsection \<open>Emergency stop, memory and dead zone\<close>

lemma exec_stays_tripped: "e_stopped self \<Longrightarrow> \<not> rearms c \<Longrightarrow> exec self c = self"
  by (cases c) (simp_all add: filter_action_def set_e_stop_def)

lemma run_stays_tripped:
  "e_stopped self \<Longrightarrow> list_all (\<lambda>c. \<not> rearms c) cs \<Longrightarrow> run self cs = self"
  by (induction cs) (simp_all add: exec_stays_tripped)


lemma filter_channel_no_memory:
  "map_of (last_action self) key = None \<Longrightarrow>
   filter_channel self key raw = clamp_to_limits (joint_limits self) key raw"
  by (simp add: filter_channel_def velocity_limit_def dead_zone_def)

lemma filter_loop_cong:
  "(\<And>key v. filter_channel self key v = filter_channel self' key v) \<Longrightarrow>
   filter_loop self act acc = filter_loop self' act acc"
  by (induction self act acc rule: filter_loop.induct) simp_all

section \<open>Properties of double-precision arithmetic\<close>

subsection \<open>Rounding\<close>

lemma round53_cases:
  fixes n :: int
  defines "g \<equiv> 2 ^ nat (bitlen \<bar>n\<bar> - 53)"
  shows "round53 n = n div g * g \<or> round53 n = (n div g + 1) * g"
  by (simp add: round53_def Let_def g_def)

lemma round53_exact:
  fixes n :: int
  defines "g \<equiv> 2 ^ nat (bitlen \<bar>n\<bar> - 53)"
  assumes "n mod g = 0"
  shows "round53 n = n"
  using assms by (auto simp: round53_def Let_def)

lemma round53_up:
  fixes n :: int
  defines "g \<equiv> 2 ^ nat (bitlen \<bar>n\<bar> - 53)"
  assumes "round53 n \<noteq> n div g * g"
  shows "round53 n = (n div g + 1) * g" "n mod g \<noteq> 0"
  using assms by (auto simp: round53_def Let_def split: if_splits)

lemma grid_floor:
  fixes n g :: int
  assumes "0 < g"
  shows "n div g * g \<le> n" and "n < (n div g + 1) * g"
    and "n mod g \<noteq> 0 \<Longrightarrow> n div g * g < n"
proof -
  have e: "n div g * g + n mod g = n" by simp
  have r: "0 \<le> n mod g" "n mod g < g" using assms by simp_all
  have s: "(n div g + 1) * g = n div g * g + g" by (simp add: algebra_simps)
  show "n div g * g \<le> n" using e r by linarith
  show "n < (n div g + 1) * g" using e r s by linarith
  show "n div g * g < n" if "n mod g \<noteq> 0" using that e r by linarith
qed

lemma round53_le_grid:
  fixes n c :: int
  defines "g \<equiv> 2 ^ nat (bitlen \<bar>n\<bar> - 53)"
  assumes "g dvd c" and "n \<le> c"
  shows "round53 n \<le> c"
proof -
  have gpos: "0 < g" by (simp add: g_def)
  show ?thesis
  proof (cases "round53 n = n div g * g")
    case True
    with grid_floor(1) [OF gpos, of n] assms(3) show ?thesis by simp
  next
    case False
    then have up: "round53 n = (n div g + 1) * g" and r: "n mod g \<noteq> 0"
      unfolding g_def by (rule round53_up)+
    from assms(2) obtain j where c: "c = j * g" by (auto simp: dvd_def mult.commute)
    from grid_floor(3) [OF gpos r] assms(3) c have "n div g * g < j * g" by simp
    with gpos have "n div g < j" by simp
    then have "(n div g + 1) * g \<le> j * g" using gpos by simp
    with up c show ?thesis by simp
  qed
qed

lemma round53_ge_grid:
  fixes n c :: int
  defines "g \<equiv> 2 ^ nat (bitlen \<bar>n\<bar> - 53)"
  assumes "g dvd c" and "c \<le> n"
  shows "c \<le> round53 n"
proof -
  have gpos: "0 < g" by (simp add: g_def)
  from assms(2) obtain j where c: "c = j * g" by (auto simp: dvd_def mult.commute)
  from grid_floor(2) [OF gpos, of n] assms(3) c have "j * g < (n div g + 1) * g" by simp
  with gpos have "j < n div g + 1" by simp
  then have "j * g \<le> n div g * g" using gpos by simp
  moreover have "n div g * g \<le> round53 n"
    using round53_cases [of n] gpos by (auto simp: g_def algebra_simps)
  ultimately show ?thesis using c by simp
qed

lemma round53_error:
  fixes n :: int
  defines "g \<equiv> 2 ^ nat (bitlen \<bar>n\<bar> - 53)"
  shows "2 * \<bar>round53 n - n\<bar> \<le> g"
proof -
  have gpos: "0 < g" by (simp add: g_def)
  let ?q = "n div g" and ?r = "n mod g"
  have n: "n = ?q * g + ?r" by simp
  have r: "0 \<le> ?r" "?r < g" using gpos by simp_all
  have "round53 n = ?q * g \<and> 2 * ?r \<le> g \<or> round53 n = (?q + 1) * g \<and> g \<le> 2 * ?r"
    by (auto simp: round53_def Let_def g_def)
  then show ?thesis
  proof
    assume a: "round53 n = ?q * g \<and> 2 * ?r \<le> g"
    then have "round53 n - n = - ?r" using n by (simp add: algebra_simps)
    with a r show ?thesis by simp
  next
    assume a: "round53 n = (?q + 1) * g \<and> g \<le> 2 * ?r"
    then have "round53 n - n = g - ?r" using n by (simp add: algebra_simps)
    with a r show ?thesis by simp
  qed
qed

lemma bitlen_abs_bounds:
  fixes n :: int
  assumes "n \<noteq> 0"
  shows "2 ^ nat (bitlen \<bar>n\<bar> - 1) \<le> \<bar>n\<bar>" and "\<bar>n\<bar> < 2 ^ nat (bitlen \<bar>n\<bar>)"
  using bitlen_bounds [of "\<bar>n\<bar>"] assms by auto

lemma round53_le:
  assumes "is53 c" and "n \<le> c"
  shows "round53 n \<le> c"
proof (cases "nat (bitlen \<bar>n\<bar> - 53) \<le> nat (bitlen \<bar>c\<bar> - 53)")
  case True
  then have "(2::int) ^ nat (bitlen \<bar>n\<bar> - 53) dvd 2 ^ nat (bitlen \<bar>c\<bar> - 53)"
    by (rule le_imp_power_dvd)
  moreover from assms(1) have "(2::int) ^ nat (bitlen \<bar>c\<bar> - 53) dvd c"
    by (simp add: is53_def mod_eq_0_iff_dvd)
  ultimately have "(2::int) ^ nat (bitlen \<bar>n\<bar> - 53) dvd c" by (rule dvd_trans)
  then show ?thesis using assms(2) by (rule round53_le_grid)
next
  case False
  then have k: "53 < bitlen \<bar>n\<bar>" and lt: "bitlen \<bar>c\<bar> < bitlen \<bar>n\<bar>" by auto
  then have n0: "n \<noteq> 0" by auto
  let ?P = "(2::int) ^ nat (bitlen \<bar>n\<bar> - 1)"
  have P: "?P \<le> \<bar>n\<bar>" using n0 by (rule bitlen_abs_bounds)
  have cP: "\<bar>c\<bar> < ?P"
  proof (cases "c = 0")
    case True then show ?thesis by simp
  next
    case False
    then have "\<bar>c\<bar> < 2 ^ nat (bitlen \<bar>c\<bar>)" by (rule bitlen_abs_bounds)
    also have "(2::int) ^ nat (bitlen \<bar>c\<bar>) \<le> ?P"
      using lt by (intro power_increasing) auto
    finally show ?thesis .
  qed
  with P assms(2) have neg: "n \<le> - ?P" by linarith
  have "(2::int) ^ nat (bitlen \<bar>n\<bar> - 53) dvd ?P"
    using k by (intro le_imp_power_dvd) auto
  then have "(2::int) ^ nat (bitlen \<bar>n\<bar> - 53) dvd - ?P" by simp
  then have "round53 n \<le> - ?P" using neg by (rule round53_le_grid)
  with cP show ?thesis by linarith
qed

lemma round53_ge:
  assumes "is53 c" and "c \<le> n"
  shows "c \<le> round53 n"
proof (cases "nat (bitlen \<bar>n\<bar> - 53) \<le> nat (bitlen \<bar>c\<bar> - 53)")
  case True
  then have "(2::int) ^ nat (bitlen \<bar>n\<bar> - 53) dvd 2 ^ nat (bitlen \<bar>c\<bar> - 53)"
    by (rule le_imp_power_dvd)
  moreover from assms(1) have "(2::int) ^ nat (bitlen \<bar>c\<bar> - 53) dvd c"
    by (simp add: is53_def mod_eq_0_iff_dvd)
  ultimately have "(2::int) ^ nat (bitlen \<bar>n\<bar> - 53) dvd c" by (rule dvd_trans)
  then show ?thesis using assms(2) by (rule round53_ge_grid)
next
  case False
  then have k: "53 < bitlen \<bar>n\<bar>" and lt: "bitlen \<bar>c\<bar> < bitlen \<bar>n\<bar>" by auto
  then have n0: "n \<noteq> 0" by auto
  let ?P = "(2::int) ^ nat (bitlen \<bar>n\<bar> - 1)"
  have P: "?P \<le> \<bar>n\<bar>" using n0 by (rule bitlen_abs_bounds)
  have cP: "\<bar>c\<bar> < ?P"
  proof (cases "c = 0")
    case True then show ?thesis by simp
  next
    case False
    then have "\<bar>c\<bar> < 2 ^ nat (bitlen \<bar>c\<bar>)" by (rule bitlen_abs_bounds)
    also have "(2::int) ^ nat (bitlen \<bar>c\<bar>) \<le> ?P"
      using lt by (intro power_increasing) auto
    finally show ?thesis .
  qed
  with P assms(2) have pos: "?P \<le> n" by linarith
  have "(2::int) ^ nat (bitlen \<bar>n\<bar> - 53) dvd ?P"
    using k by (intro le_imp_power_dvd) auto
  then have "?P \<le> round53 n" using pos by (rule round53_ge_grid)
  with cP show ?thesis by linarith
qed

lemma round53_id: "is53 n \<Longrightarrow> round53 n = n"
  unfolding is53_def by (rule round53_exact)

lemma round53_relative: "2 ^ 53 * \<bar>round53 n - n\<bar> \<le> \<bar>n\<bar>"
proof (cases "bitlen \<bar>n\<bar> \<le> 53")
  case True
  then have "n mod 2 ^ nat (bitlen \<bar>n\<bar> - 53) = 0" by simp
  then have "round53 n = n" by (rule round53_exact)
  then show ?thesis by simp
next
  case False
  then have n0: "n \<noteq> 0" by auto
  have "2 * \<bar>round53 n - n\<bar> \<le> 2 ^ nat (bitlen \<bar>n\<bar> - 53)" by (rule round53_error)
  then have "2 ^ 52 * (2 * \<bar>round53 n - n\<bar>) \<le> 2 ^ 52 * 2 ^ nat (bitlen \<bar>n\<bar> - 53)"
    by (intro mult_left_mono) auto
  also have "(2::int) ^ 52 * 2 ^ nat (bitlen \<bar>n\<bar> - 53) = 2 ^ nat (bitlen \<bar>n\<bar> - 1)"
  proof -
    from False have "nat (bitlen \<bar>n\<bar> - 1) = 52 + nat (bitlen \<bar>n\<bar> - 53)" by linarith
    then show ?thesis by (simp only: power_add)
  qed
  also have "\<dots> \<le> \<bar>n\<bar>" using n0 by (rule bitlen_abs_bounds)
  finally show ?thesis by simp
qed


lemma round53_is53: "is53 (round53 n)"
proof (cases "bitlen \<bar>n\<bar> \<le> 53")
  case True
  then have "n mod 2 ^ nat (bitlen \<bar>n\<bar> - 53) = 0" by simp
  then have "round53 n = n" by (rule round53_exact)
  with True show ?thesis by (simp add: is53_def)
next
  case False
  let ?k = "nat (bitlen \<bar>n\<bar> - 53)"
  let ?T = "(2::int) ^ (53 + ?k)"
  from False have n0: "n \<noteq> 0" by auto
  have b: "nat (bitlen \<bar>n\<bar>) = 53 + ?k" using False by linarith
  have "\<bar>n\<bar> < ?T" using bitlen_abs_bounds(2) [OF n0] b by simp
  then have lo: "- ?T \<le> n" and hi: "n \<le> ?T" by linarith+
  have d: "(2::int) ^ ?k dvd ?T" by (intro le_imp_power_dvd) simp
  then have d': "(2::int) ^ ?k dvd - ?T" by simp
  have "round53 n \<le> ?T" using d hi by (rule round53_le_grid)
  moreover have "- ?T \<le> round53 n" using d' lo by (rule round53_ge_grid)
  ultimately have bound: "\<bar>round53 n\<bar> \<le> ?T" by linarith
  have grid: "(2::int) ^ ?k dvd round53 n"
    using round53_cases [of n] by auto
  show ?thesis
  proof (cases "\<bar>round53 n\<bar> = ?T")
    case True
    then have "bitlen \<bar>round53 n\<bar> = 54 + int ?k"
      using bitlen_pow2 [of 1 "53 + ?k"] by (simp add: bitlen_def floorlog_def)
    then have "nat (bitlen \<bar>round53 n\<bar> - 53) = 1 + ?k" by linarith
    moreover have "(2::int) ^ (1 + ?k) dvd \<bar>round53 n\<bar>"
      unfolding True by (intro le_imp_power_dvd) simp
    ultimately show ?thesis by (simp add: is53_def mod_eq_0_iff_dvd)
  next
    case neq: False
    with bound have "\<bar>round53 n\<bar> < ?T" by linarith
    moreover have "nat (53 + int ?k) = 53 + ?k" by linarith
    ultimately have "bitlen \<bar>round53 n\<bar> \<le> 53 + int ?k"
      unfolding bitlen_le_iff_power by simp
    then have "nat (bitlen \<bar>round53 n\<bar> - 53) \<le> ?k" by linarith
    then have "(2::int) ^ nat (bitlen \<bar>round53 n\<bar> - 53) dvd 2 ^ ?k"
      by (rule le_imp_power_dvd)
    then have "(2::int) ^ nat (bitlen \<bar>round53 n\<bar> - 53) dvd round53 n"
      using grid by (rule dvd_trans)
    then show ?thesis by (simp add: is53_def mod_eq_0_iff_dvd)
  qed
qed


subsection \<open>The velocity step\<close>

lemma is53_minus: "is53 (- n) = is53 n"
  by (simp add: is53_def mod_eq_0_iff_dvd)

lemma is53_small: "\<bar>n\<bar> < 2 ^ 53 \<Longrightarrow> is53 n"
proof -
  assume "\<bar>n\<bar> < 2 ^ 53"
  then have "bitlen \<bar>n\<bar> \<le> 53" by (simp add: bitlen_le_iff_power)
  then show ?thesis by (simp add: is53_def)
qed

lemma fsub_Fin: "fsub (Fin a) (Fin b) = overflow (round53 (a - b))"
  by (simp add: fsub_def)

lemma round53_sign:
  "(0 < round53 d) = (0 < d)"
proof
  assume "0 < round53 d"
  show "0 < d"
  proof (rule ccontr)
    assume "\<not> 0 < d"
    then have "d \<le> 0" by simp
    with is53_small [of 0] have "round53 d \<le> 0" by (intro round53_le) auto
    with \<open>0 < round53 d\<close> show False by simp
  qed
next
  assume "0 < d"
  then have "1 \<le> d" by simp
  with is53_small [of 1] have "1 \<le> round53 d" by (intro round53_ge) auto
  then show "0 < round53 d" by simp
qed

lemma delta_positive:
  "flt (Fin 0) (overflow (round53 d)) = (0 < d)"
  using round53_sign [of d] by (auto simp: overflow_def)

lemma delta_exceeds:
  assumes "is53 m" and "0 \<le> m" and "m < 2 ^ 2098"
    and "flt (Fin m) (fabs (overflow (round53 d)))"
  shows "m < \<bar>d\<bar>"
proof (rule ccontr)
  assume "\<not> m < \<bar>d\<bar>"
  then have d: "d \<le> m" "- m \<le> d" by linarith+
  have "round53 d \<le> m" using assms(1) d(1) by (rule round53_le)
  moreover have "- m \<le> round53 d"
    using assms(1) d(2) by (intro round53_ge) (simp add: is53_minus)
  ultimately have "\<bar>round53 d\<bar> \<le> m" by linarith
  with assms(3) have "overflow (round53 d) = Fin (round53 d)" "\<not> m < \<bar>round53 d\<bar>"
    by (auto simp: overflow_def)
  with assms(4) show False by simp
qed

lemma step_up:
  assumes "is53 p" and "is53 c" and "0 \<le> m" and "m < c - p"
    and "\<bar>p\<bar> < 2 ^ 2098" and "\<bar>c\<bar> < 2 ^ 2098"
  shows "p \<le> round53 (p + m)" and "round53 (p + m) \<le> c"
    and "overflow (round53 (p + m)) = Fin (round53 (p + m))"
proof -
  show 1: "p \<le> round53 (p + m)" using assms(1,3) by (intro round53_ge) auto
  show 2: "round53 (p + m) \<le> c" using assms(2,4) by (intro round53_le) auto
  from 1 2 assms(5,6) show "overflow (round53 (p + m)) = Fin (round53 (p + m))"
    by (auto simp: overflow_def)
qed

lemma step_down:
  assumes "is53 p" and "is53 c" and "0 \<le> m" and "m < p - c"
    and "\<bar>p\<bar> < 2 ^ 2098" and "\<bar>c\<bar> < 2 ^ 2098"
  shows "c \<le> round53 (p - m)" and "round53 (p - m) \<le> p"
    and "overflow (round53 (p - m)) = Fin (round53 (p - m))"
proof -
  show 1: "c \<le> round53 (p - m)" using assms(2,4) by (intro round53_ge) auto
  show 2: "round53 (p - m) \<le> p" using assms(1,3) by (intro round53_le) auto
  from 1 2 assms(5,6) show "overflow (round53 (p - m)) = Fin (round53 (p - m))"
    by (auto simp: overflow_def)
qed

lemma velocity_limit_fp_exceeds:
  assumes "finite_double (Fin p)" and "finite_double (Fin c)" and "finite_double (Fin m)"
    and "0 \<le> m"
    and "flt (Fin m) (fabs (fsub (Fin c) (Fin p)))"
    and "t = (if p < c then p + m else p - m)"
  shows "p \<noteq> c" and "velocity_limit_fp (Fin m) (Some (Fin p)) (Fin c) = Fin (round53 t)"
    and "min p c \<le> round53 t" and "round53 t \<le> max p c"
proof -
  from assms(1-3) have fin: "is53 p" "is53 c" "is53 m"
    "\<bar>p\<bar> < 2 ^ 2098" "\<bar>c\<bar> < 2 ^ 2098" "m < 2 ^ 2098" by auto
  from assms(5) have ex: "flt (Fin m) (fabs (overflow (round53 (c - p))))"
    by (simp add: fsub_Fin)
  with fin(3) assms(4) fin(6) have big: "m < \<bar>c - p\<bar>" by (rule delta_exceeds)
  with assms(4) show neq: "p \<noteq> c" by auto
  have vel: "velocity_limit_fp (Fin m) (Some (Fin p)) (Fin c)
      = fadd (Fin p) (if 0 < c - p then Fin m else fneg (Fin m))"
    using assms(5) by (simp add: velocity_limit_fp_def Let_def fsub_Fin delta_positive)
  have "velocity_limit_fp (Fin m) (Some (Fin p)) (Fin c) = Fin (round53 t)
      \<and> min p c \<le> round53 t \<and> round53 t \<le> max p c"
  proof (cases "p < c")
    case True
    with big have "m < c - p" by simp
    from step_up [OF fin(1,2) assms(4) this fin(4,5)] True vel assms(6)
    show ?thesis by simp
  next
    case False
    with big neq have "m < p - c" by simp
    from step_down [OF fin(1,2) assms(4) this fin(4,5)] False vel assms(6)
    show ?thesis by simp
  qed
  then show "velocity_limit_fp (Fin m) (Some (Fin p)) (Fin c) = Fin (round53 t)"
    and "min p c \<le> round53 t" and "round53 t \<le> max p c"
    by simp_all
qed

subsection \<open>Scaling\<close>

lemma bitlen_scale:
  fixes n :: int
  assumes "n \<noteq> 0"
  shows "bitlen \<bar>n * 2 ^ j\<bar> = bitlen \<bar>n\<bar> + int j"
  using assms bitlen_pow2 [of "\<bar>n\<bar>" j] by (simp add: abs_mult)

lemma round53_scale: "round53 (n * 2 ^ j) = round53 n * 2 ^ j"
proof (cases "53 \<le> bitlen \<bar>n\<bar>")
  case True
  then have n0: "n \<noteq> 0" by auto
  let ?k = "nat (bitlen \<bar>n\<bar> - 53)"
  have k: "nat (bitlen \<bar>n * 2 ^ j\<bar> - 53) = ?k + j"
    using True by (simp add: bitlen_scale [OF n0] nat_add_distrib)
  have d: "n * 2 ^ j div 2 ^ (?k + j) = n div 2 ^ ?k"
    by (simp add: power_add)
  have m: "n * 2 ^ j mod 2 ^ (?k + j) = n mod 2 ^ ?k * 2 ^ j"
    by (simp add: power_add)
  show ?thesis
    unfolding round53_def [of "n * 2 ^ j"] round53_def [of n] Let_def k d m
    by (simp add: power_add)
next
  case False
  then have "n mod 2 ^ nat (bitlen \<bar>n\<bar> - 53) = 0" by simp
  then have r: "round53 n = n" by (rule round53_exact)
  have "is53 (n * 2 ^ j)"
  proof (cases "n = 0")
    case True then show ?thesis by (simp add: is53_def)
  next
    case n0: False
    from False have "nat (bitlen \<bar>n * 2 ^ j\<bar> - 53) \<le> j"
      by (simp add: bitlen_scale [OF n0])
    then have "(2::int) ^ nat (bitlen \<bar>n * 2 ^ j\<bar> - 53) dvd 2 ^ j"
      by (rule le_imp_power_dvd)
    then have "(2::int) ^ nat (bitlen \<bar>n * 2 ^ j\<bar> - 53) dvd n * 2 ^ j"
      by (rule dvd_mult)
    then show ?thesis by (simp add: is53_def mod_eq_0_iff_dvd)
  qed
  then have "round53 (n * 2 ^ j) = n * 2 ^ j" by (rule round53_id)
  with r show ?thesis by simp
qed

lemma is53_scale: "is53 n \<Longrightarrow> is53 (n * 2 ^ j)"
  using round53_scale [of n j] round53_id [of n] round53_is53 [of "n * 2 ^ j"] by simp

lemma dbl_Fin: "dbl m e = Fin (m * 2 ^ nat (e + 1074))"
  by (simp add: dbl_def)


subsection \<open>Computing with floats of one exponent\<close>

lemma overflow_Fin: "\<bar>n\<bar> < 2 ^ 2098 \<Longrightarrow> overflow n = Fin n"
  unfolding overflow_def by (simp only: abs_less_iff not_le [symmetric] if_False) auto

lemma fadd_dbl:
  "\<bar>round53 (a + b) * 2 ^ nat (e + 1074)\<bar> < 2 ^ 2098 \<Longrightarrow>
   fadd (dbl a e) (dbl b e) = dbl (round53 (a + b)) e"
  by (simp only: dbl_def fadd.simps distrib_right [symmetric] round53_scale overflow_Fin)

lemma fsub_dbl:
  "\<bar>round53 (a - b) * 2 ^ nat (e + 1074)\<bar> < 2 ^ 2098 \<Longrightarrow>
   fsub (dbl a e) (dbl b e) = dbl (round53 (a - b)) e"
  by (simp only: dbl_def fsub_Fin left_diff_distrib [symmetric] round53_scale overflow_Fin)

lemma flt_dbl: "flt (dbl a e) (dbl b e) = (a < b)"
  by (simp add: dbl_def)

lemma fabs_dbl: "fabs (dbl a e) = dbl \<bar>a\<bar> e"
  by (simp add: dbl_def abs_mult)

lemma fneg_dbl: "fneg (dbl a e) = dbl (- a) e"
  by (simp add: dbl_def)

lemma finite_double_dbl:
  "\<bar>a\<bar> < 2 ^ 53 \<Longrightarrow> \<bar>a * 2 ^ nat (e + 1074)\<bar> < 2 ^ 2098 \<Longrightarrow> finite_double (dbl a e)"
  by (simp add: dbl_def is53_scale is53_small)

lemma flt_zero_dbl: "flt (Fin 0) (dbl a e) = (0 < a)"
  by (simp add: dbl_def zero_less_mult_iff)

lemmas eval_fp = filter_value_fp_def dead_zone_fp_def velocity_limit_fp_def clamp_fp_def Let_def
  fadd_dbl fsub_dbl flt_dbl flt_zero_dbl fabs_dbl fneg_dbl

subsection \<open>The loop on floats\<close>

lemma filter_loop_fp_absent:
  "key \<notin> fst ` set act \<Longrightarrow> map_of (filter_loop_fp self act acc) key = map_of acc key"
  by (induction self act acc rule: filter_loop_fp.induct) (auto simp: update_conv')

lemma filter_loop_fp_lookup:
  "distinct (map fst act) \<Longrightarrow> map_of act key = Some raw \<Longrightarrow>
   map_of (filter_loop_fp self act acc) key = Some (filter_channel_fp self key raw)"
proof (induction self act acc rule: filter_loop_fp.induct)
  case (1 self filtered)
  then show ?case by simp
next
  case (2 self k x rest filtered)
  show ?case
  proof (cases "key = k")
    case True
    with "2.prems" have "raw = x" and "key \<notin> fst ` set rest" by auto
    then show ?thesis
      by (simp add: filter_loop_fp_absent update_conv' True)
  next
    case False
    with "2.prems" "2.IH" show ?thesis by simp
  qed
qed

lemma filter_action_fp_lookup:
  assumes "fst (filter_action_fp now self act) = Some out" and "enabled_fp self"
    and "distinct (map fst act)" and "map_of act key = Some raw"
  shows "map_of out key =
     Some (filter_value_fp (joint_limits_fp self) (max_velocity_fp self) (deadzone_fp self)
        (map_of (last_action_fp self) key) key raw)"
    and "snd (filter_action_fp now self act) = self\<lparr>last_input_time_fp := now, last_action_fp := out\<rparr>"
proof -
  from assms(1,2) have out: "out = filter_loop_fp (self\<lparr>last_input_time_fp := now\<rparr>) act []"
    and st: "snd (filter_action_fp now self act) = self\<lparr>last_input_time_fp := now, last_action_fp := out\<rparr>"
    by (auto simp: filter_action_fp_def Let_def split: if_splits)
  from assms(3,4) show "map_of out key =
     Some (filter_value_fp (joint_limits_fp self) (max_velocity_fp self) (deadzone_fp self)
        (map_of (last_action_fp self) key) key raw)"
    unfolding out by (simp add: filter_loop_fp_lookup filter_channel_fp_def)
  from st show "snd (filter_action_fp now self act) = self\<lparr>last_input_time_fp := now, last_action_fp := out\<rparr>" .
qed

lemmas eval_filter_fp = SafetyFilter_fp_init_def filter_action_fp_def filter_channel_fp_def

section \<open>Properties of the robot adapters\<close>

lemma generic_emergency_stop_handle:
  "generic_robot (fst (snd (generic_emergency_stop self))) = None"
  by (simp add: generic_emergency_stop_def split: option.splits)

lemma piper_emergency_stop_handle:
  "piper_bus_truthy self \<Longrightarrow> fst (piper_emergency_stop self) = Inr () \<Longrightarrow>
   piper_robot (fst (snd (piper_emergency_stop self))) = None"
  by (auto simp: piper_emergency_stop_def piper_bus_truthy_def split: option.splits if_splits)

lemma generic_emergency_stop_returns:
  "(case generic_robot self of None \<Rightarrow> True
    | Some r \<Rightarrow> (case robot_disconnect r of None \<Rightarrow> True | Some e \<Rightarrow> is_Exception e)) \<Longrightarrow>
   fst (generic_emergency_stop self) = Inr ()"
  by (auto simp: generic_emergency_stop_def split: option.splits)

lemma piper_emergency_stop_returns:
  "(case piper_robot self of None \<Rightarrow> True
    | Some r \<Rightarrow>
        (case piper_DisableArm (bus r) 7 of None \<Rightarrow> True | Some e \<Rightarrow> is_Exception e)
        \<and> (case piper_GripperCtrl (bus r) 0 1000 2 0 of None \<Rightarrow> True | Some e \<Rightarrow> is_Exception e)) \<Longrightarrow>
   fst (piper_emergency_stop self) = Inr ()"
  by (auto simp: piper_emergency_stop_def split: option.splits)

section \<open>The claims\<close>

text \<open>
  C1. For every channel with a configured operating range \<open>[lo, hi]\<close> in \<open>joint_limits\<close>,
  after any sequence of calls on a filter built by the constructor, every value that
  \<open>filter_action\<close> emits for that channel lies within \<open>[lo, hi]\<close>.  The range of a
  channel \<open>key\<close> is the entry of \<open>joint_limits\<close> for \<open>key\<close> with its \<open>.pos\<close> parts
  deleted; the range is an interval (\<open>lo \<le> hi\<close>) and the velocity limit is not negative.
\<close>

theorem filter_action_within_range:
  assumes "self = run (SafetyFilter_init jl mv dz tmo t0) cs"
    and "0 \<le> mv"
    and "map_of (joint_limits self) (str_remove ''.pos'' key) = Some (lo, hi)"
    and "lo \<le> hi"
    and "fst (filter_action now self act) = Some out"
    and "map_of out key = Some v"
  shows "lo \<le> v \<and> v \<le> hi"
proof -
  have en: "enabled self" and mv: "max_velocity self = mv"
    using assms(1) by (rule reachable_facts)+
  have mem: "memory_clamped self"
    using assms(1,2) by (rule reachable_clamped)
  have "out = filter_loop self act []"
    using en assms(5) by (rule filter_action_Some)
  with assms(6) obtain raw where "v = filter_channel self key raw"
    by (auto dest: filter_loop_source)
  with assms(2) mv mem have "clamp_to_limits (joint_limits self) key v = v"
    by (simp add: filter_channel_clamped)
  then show ?thesis
    using assms(3,4) by (rule clamp_fixed_in_range)
qed

theorem filter_action_within_range_witness:
  "(0::real) \<le> 1 / 2
   \<and> map_of [(''joint_1'', (- 16 / 10, 16 / 10 :: real))] (str_remove ''.pos'' ''joint_1.pos'')
       = Some (- 16 / 10, 16 / 10)
   \<and> - 16 / 10 \<le> (16 / 10 :: real)
   \<and> fst (filter_action 4
        (run (SafetyFilter_init (Some [(''joint_1'', (- 16 / 10, 16 / 10))]) (1 / 2) (1 / 1000) 500 0)
           [Filter_action 1 [(''joint_1.pos'', 0)], Set_e_stop True, Set_e_stop False])
        [(''joint_1.pos'', 2)]) = Some [(''joint_1.pos'', 1 / 2)]
   \<and> - 16 / 10 \<le> (1 / 2 :: real) \<and> (1 / 2 :: real) \<le> 16 / 10"
proof -
  let ?limits = "[(''joint_1'', (- 16 / 10, 16 / 10 :: real))]"
  let ?self = "run (SafetyFilter_init (Some ?limits) (1 / 2) (1 / 1000) 500 0)
           [Filter_action 1 [(''joint_1.pos'', 0)], Set_e_stop True, Set_e_stop False]"
  have h1: "?self = run (SafetyFilter_init (Some ?limits) (1 / 2) (1 / 1000) 500 0)
           [Filter_action 1 [(''joint_1.pos'', 0)], Set_e_stop True, Set_e_stop False]" by (rule refl)
  have h2: "(0::real) \<le> 1 / 2" by simp
  have h3: "map_of (joint_limits ?self) (str_remove ''.pos'' ''joint_1.pos'') = Some (- 16 / 10, 16 / 10)"
    by (simp add: eval_filter)
  have h4: "- 16 / 10 \<le> (16 / 10 :: real)" by simp
  have h5: "fst (filter_action 4 ?self [(''joint_1.pos'', 2)]) = Some [(''joint_1.pos'', 1 / 2)]"
    by (simp add: eval_filter)
  have h6: "map_of [(''joint_1.pos'', 1 / 2 :: real)] ''joint_1.pos'' = Some (1 / 2)" by simp
  from filter_action_within_range [OF h1 h2 h3 h4 h5 h6] h5 show ?thesis
    by simp
qed

text \<open>
  C2. After \<open>set_e_stop(True)\<close>, \<open>filter_action\<close> returns \<open>None\<close> until the flag is
  cleared.  The flag is cleared by \<open>set_e_stop(False)\<close> and also by \<open>reset()\<close>: after
  \<open>set_e_stop(True); reset()\<close>, with no \<open>set_e_stop(False)\<close> in between, the next
  \<open>filter_action\<close> returns a filtered action.
\<close>

theorem e_stop_cleared_by_reset:
  "fst (filter_action 3
     (run (SafetyFilter_init None (1 / 2) (1 / 1000) 500 0) [Set_e_stop True, Reset 2])
     [(''j'', 1)]) = Some [(''j'', 1)]"
  by (simp add: eval_filter)

text \<open>
  C2, as the code has it: once \<open>set_e_stop(True)\<close> has been called, on any filter, every
  \<open>filter_action\<close> call returns \<open>None\<close> for as long as the calls in between contain
  neither \<open>set_e_stop(False)\<close> nor \<open>reset()\<close>.
\<close>

theorem e_stop_blocks_until_rearmed:
  assumes "list_all (\<lambda>c. \<not> rearms c) cs"
  shows "fst (filter_action now (run (set_e_stop True self) cs) act) = None"
proof -
  have "e_stopped (set_e_stop True self)" by (simp add: set_e_stop_def)
  with assms have "run (set_e_stop True self) cs = set_e_stop True self"
    by (simp add: run_stays_tripped)
  then show ?thesis by (simp add: filter_action_def set_e_stop_def)
qed

theorem e_stop_blocks_until_rearmed_witness:
  "list_all (\<lambda>c. \<not> rearms c) [Filter_action 1 [(''j'', 1)], Check_timeout 2, Set_e_stop True]
   \<and> fst (filter_action 3
        (run (set_e_stop True (SafetyFilter_init None (1 / 2) (1 / 1000) 500 0))
           [Filter_action 1 [(''j'', 1)], Check_timeout 2, Set_e_stop True])
        [(''j'', 1)]) = None"
proof -
  have h: "list_all (\<lambda>c. \<not> rearms c) [Filter_action 1 [(''j'', 1)], Check_timeout 2, Set_e_stop True]"
    by simp
  from h e_stop_blocks_until_rearmed [OF h] show ?thesis by simp
qed

text \<open>
  C3. Two values emitted in a row for a channel need not differ by at most the velocity
  limit, and the output after a delta above the limit need not be the previous value plus or
  minus the limit.  Four runs show it, the first and the last on the filter with exact
  numbers, the other two on the filter with floats.
  \<^item> The dead zone runs after the velocity step: with a limit of \<open>0.5\<close> and a deadzone of
    \<open>1\<close>, the input \<open>0\<close> and then the input \<open>2\<close> give \<open>0\<close> twice, not \<open>0\<close> and \<open>0.5\<close>.
  \<^item> The sum is rounded: with a limit of \<open>0.2\<close>, that is \<open>3602879701896397 \<sqdot> 2\<^sup>-\<^sup>5\<^sup>4\<close>, and
    a deadzone of \<open>0.001\<close>, the input \<open>0.1\<close>, that is \<open>3602879701896397 \<sqdot> 2\<^sup>-\<^sup>5\<^sup>5\<close>, and then
    the input \<open>1.0\<close> give \<open>0.1\<close> and \<open>0.30000000000000004\<close>, that is
    \<open>1351079888211149 \<sqdot> 2\<^sup>-\<^sup>5\<^sup>2\<close>; the step is above the limit, as the float difference
    shows and as the exact one does, counted in units of \<open>2\<^sup>-\<^sup>5\<^sup>5\<close>.
  \<^item> A NaN passes both comparisons: after the input \<open>0\<close> the input NaN is emitted.
  \<^item> A channel that one call does not carry is forgotten: \<open>j = 0\<close>, then a call without
    \<open>j\<close>, then \<open>j = 10\<close> emits \<open>10\<close> under a limit of \<open>0.5\<close>.
\<close>

theorem velocity_limit_claim_fails:
  "\<bar>(2::real) - 0\<bar> > 1 / 2
   \<and> fst (filter_action 2
        (run (SafetyFilter_init None (1 / 2) 1 500 0) [Filter_action 1 [(''j'', 0)]])
        [(''j'', 2)]) = Some [(''j'', 0)]
   \<and> (0::real) \<noteq> 0 + 1 / 2
   \<and> fst (filter_action_fp (dbl 1 0)
        (SafetyFilter_fp_init None (dbl 3602879701896397 (- 54)) (dbl 1152921504606847 (- 60))
           (dbl 500 0) (dbl 0 0))
        [(''j'', dbl 3602879701896397 (- 55))]) = Some [(''j'', dbl 3602879701896397 (- 55))]
   \<and> fst (filter_action_fp (dbl 2 0)
        (snd (filter_action_fp (dbl 1 0)
           (SafetyFilter_fp_init None (dbl 3602879701896397 (- 54)) (dbl 1152921504606847 (- 60))
              (dbl 500 0) (dbl 0 0))
           [(''j'', dbl 3602879701896397 (- 55))]))
        [(''j'', dbl 1 0)]) = Some [(''j'', dbl 1351079888211149 (- 52))]
   \<and> flt (dbl 3602879701896397 (- 54))
         (fsub (dbl 1351079888211149 (- 52)) (dbl 3602879701896397 (- 55)))
   \<and> (3602879701896397 * 2 :: int) < 1351079888211149 * 8 - 3602879701896397
   \<and> fst (filter_action_fp (dbl 2 0)
        (snd (filter_action_fp (dbl 1 0)
           (SafetyFilter_fp_init None (dbl 1 (- 1)) (dbl 1152921504606847 (- 60)) (dbl 500 0) (dbl 0 0))
           [(''j'', dbl 0 0)]))
        [(''j'', NaN)]) = Some [(''j'', NaN)]
   \<and> fst (filter_action 3
        (run (SafetyFilter_init None (1 / 2) (1 / 1000) 500 0)
           [Filter_action 1 [(''j'', 0)], Filter_action 2 [(''k'', 0)]])
        [(''j'', 10)]) = Some [(''j'', 10)]"
proof -
  have held: "fst (filter_action 2
        (run (SafetyFilter_init None (1 / 2) 1 500 0) [Filter_action 1 [(''j'', 0)]])
        [(''j'', 2)]) = Some [(''j'', 0)]"
    by (simp add: eval_filter)
  have skipped: "fst (filter_action 3
        (run (SafetyFilter_init None (1 / 2) (1 / 1000) 500 0)
           [Filter_action 1 [(''j'', 0)], Filter_action 2 [(''k'', 0)]])
        [(''j'', 10)]) = Some [(''j'', 10)]"
    by (simp add: eval_filter)
  have v: "dbl 3602879701896397 (- 54) = dbl 230584300921369408 (- 60)"
    "dbl 3602879701896397 (- 55) = dbl 115292150460684704 (- 60)"
    "dbl 1 0 = dbl 1152921504606846976 (- 60)"
    "dbl 1351079888211149 (- 52) = dbl 345876451382054144 (- 60)"
    by (simp_all add: dbl_def)
  have r: "round53 1037629354146162272 = 1037629354146162304"
    "round53 345876451382054112 = 345876451382054144"
    "round53 230584300921369440 = 230584300921369440"
    by code_simp+
  have first: "fst (filter_action_fp (dbl 1 0)
        (SafetyFilter_fp_init None (dbl 3602879701896397 (- 54)) (dbl 1152921504606847 (- 60))
           (dbl 500 0) (dbl 0 0))
        [(''j'', dbl 3602879701896397 (- 55))]) = Some [(''j'', dbl 3602879701896397 (- 55))]"
    by (simp add: eval_filter_fp eval_fp)
  have rounded: "fst (filter_action_fp (dbl 2 0)
        (snd (filter_action_fp (dbl 1 0)
           (SafetyFilter_fp_init None (dbl 3602879701896397 (- 54)) (dbl 1152921504606847 (- 60))
              (dbl 500 0) (dbl 0 0))
           [(''j'', dbl 3602879701896397 (- 55))]))
        [(''j'', dbl 1 0)]) = Some [(''j'', dbl 1351079888211149 (- 52))]"
    unfolding v by (simp add: eval_filter_fp eval_fp r)
  have excess: "flt (dbl 3602879701896397 (- 54))
         (fsub (dbl 1351079888211149 (- 52)) (dbl 3602879701896397 (- 55)))"
    unfolding v by (simp add: eval_fp r)
  have nan: "fst (filter_action_fp (dbl 2 0)
        (snd (filter_action_fp (dbl 1 0)
           (SafetyFilter_fp_init None (dbl 1 (- 1)) (dbl 1152921504606847 (- 60)) (dbl 500 0) (dbl 0 0))
           [(''j'', dbl 0 0)]))
        [(''j'', NaN)]) = Some [(''j'', NaN)]"
    by (simp add: eval_filter_fp filter_value_fp_def dead_zone_fp_def velocity_limit_fp_def
        clamp_fp_def Let_def fsub_def dbl_def)
  from held skipped first rounded excess nan show ?thesis by simp
qed

text \<open>
  C3, as the code has it.  Let \<open>filter_action\<close>, on floats, return the action \<open>out\<close> for
  an input that carries the channel \<open>key\<close>; let the filter remember the finite float \<open>p\<close>
  for the channel, let the input of the channel, clamped to the channel's range, be the
  finite float \<open>c\<close> and the velocity limit the finite float \<open>m \<ge> 0\<close> (all three in units of
  \<open>2\<^sup>-\<^sup>1\<^sup>0\<^sup>7\<^sup>4\<close>).
  \<^item> When the float delta \<open>c - p\<close> is within the limit, the velocity step leaves \<open>c\<close>.
  \<^item> When it exceeds the limit, the step gives the float sum \<open>s\<close> of \<open>p\<close> and the limit
    with the sign of the delta: \<open>s\<close> is the float nearest to the exact sum \<open>t\<close>, the relative
    error being at most \<open>2\<^sup>-\<^sup>5\<^sup>3\<close>, it is finite and it lies between \<open>p\<close> and \<open>c\<close>.
  \<^item> In both cases the dead zone then decides: the value of the channel in \<open>out\<close> is \<open>p\<close>
    when the float difference between the result of the step and \<open>p\<close> is below the
    deadzone, and the result of the step otherwise.  It is the value the filter remembers
    for the channel after the call.
\<close>

theorem velocity_step_in_doubles:
  assumes "fst (filter_action_fp now self act) = Some out" and "enabled_fp self"
    and "distinct (map fst act)" and "map_of act key = Some raw"
    and "map_of (last_action_fp self) key = Some (Fin p)"
    and "clamp_fp (joint_limits_fp self) key raw = Fin c"
    and "max_velocity_fp self = Fin m" and "0 \<le> m"
    and "finite_double (Fin p)" and "finite_double (Fin c)" and "finite_double (Fin m)"
    and "t = (if p < c then p + m else p - m)"
    and "s = round53 t"
  shows "map_of (last_action_fp (snd (filter_action_fp now self act))) key = map_of out key
     \<and> (if flt (Fin m) (fabs (fsub (Fin c) (Fin p)))
         then p \<noteq> c \<and> finite_double (Fin s) \<and> min p c \<le> s \<and> s \<le> max p c
              \<and> 2 ^ 53 * \<bar>s - t\<bar> \<le> \<bar>t\<bar>
              \<and> map_of out key
                  = Some (if flt (fabs (fsub (Fin s) (Fin p))) (deadzone_fp self) then Fin p else Fin s)
         else map_of out key
                  = Some (if flt (fabs (fsub (Fin c) (Fin p))) (deadzone_fp self) then Fin p else Fin c))"
proof -
  note look = filter_action_fp_lookup [OF assms(1-4)]
  have mem: "map_of (last_action_fp (snd (filter_action_fp now self act))) key = map_of out key"
    by (simp add: look(2))
  have val: "map_of out key
      = Some (filter_value_fp (joint_limits_fp self) (Fin m) (deadzone_fp self) (Some (Fin p)) key raw)"
    using look(1) by (simp add: assms(5,7))
  show ?thesis
  proof (cases "flt (Fin m) (fabs (fsub (Fin c) (Fin p)))")
    case False
    then show ?thesis
      using assms(6) mem val
      by (simp add: filter_value_fp_def velocity_limit_fp_def dead_zone_fp_def Let_def)
  next
    case True
    note ex = velocity_limit_fp_exceeds [OF assms(9,10,11,8) True assms(12)]
    from ex(3,4) assms(9,10) have "\<bar>round53 t\<bar> < 2 ^ 2098" by auto
    then have fin: "finite_double (Fin s)"
      by (simp add: assms(13) round53_is53)
    have rel: "2 ^ 53 * \<bar>s - t\<bar> \<le> \<bar>t\<bar>"
      unfolding assms(13) by (rule round53_relative)
    have "filter_value_fp (joint_limits_fp self) (Fin m) (deadzone_fp self) (Some (Fin p)) key raw
        = (if flt (fabs (fsub (Fin s) (Fin p))) (deadzone_fp self) then Fin p else Fin s)"
      using assms(6,13) ex(2) by (simp add: filter_value_fp_def dead_zone_fp_def)
    with True ex(1,3,4) fin rel mem val show ?thesis by (simp add: assms(13))
  qed
qed

theorem velocity_step_in_doubles_witness:
  "fst (filter_action_fp (dbl 2 0)
        (snd (filter_action_fp (dbl 1 0)
           (SafetyFilter_fp_init None (dbl 3602879701896397 (- 54)) (dbl 1152921504606847 (- 60))
              (dbl 500 0) (dbl 0 0))
           [(''j'', dbl 3602879701896397 (- 55))]))
        [(''j'', dbl 1 0)]) = Some [(''j'', dbl 1351079888211149 (- 52))]
   \<and> map_of (last_action_fp (snd (filter_action_fp (dbl 2 0)
        (snd (filter_action_fp (dbl 1 0)
           (SafetyFilter_fp_init None (dbl 3602879701896397 (- 54)) (dbl 1152921504606847 (- 60))
              (dbl 500 0) (dbl 0 0))
           [(''j'', dbl 3602879701896397 (- 55))]))
        [(''j'', dbl 1 0)]))) ''j'' = Some (dbl 1351079888211149 (- 52))
   \<and> finite_double (dbl 3602879701896397 (- 55)) \<and> finite_double (dbl 1 0)
   \<and> finite_double (dbl 3602879701896397 (- 54))
   \<and> flt (dbl 3602879701896397 (- 54)) (fabs (fsub (dbl 1 0) (dbl 3602879701896397 (- 55))))
   \<and> flt (dbl 3602879701896397 (- 55)) (dbl 1351079888211149 (- 52))
   \<and> flt (dbl 1351079888211149 (- 52)) (dbl 1 0)
   \<and> fst (filter_action_fp (dbl 2 0)
        (snd (filter_action_fp (dbl 1 0)
           (SafetyFilter_fp_init None (dbl 1 (- 1)) (dbl 1152921504606847 (- 60)) (dbl 500 0) (dbl 0 0))
           [(''j'', dbl 5 1)]))
        [(''j'', dbl 2899192260119757 (- 48))]) = Some [(''j'', dbl 2899192260119757 (- 48))]
   \<and> map_of (last_action_fp (snd (filter_action_fp (dbl 2 0)
        (snd (filter_action_fp (dbl 1 0)
           (SafetyFilter_fp_init None (dbl 1 (- 1)) (dbl 1152921504606847 (- 60)) (dbl 500 0) (dbl 0 0))
           [(''j'', dbl 5 1)]))
        [(''j'', dbl 2899192260119757 (- 48))]))) ''j'' = Some (dbl 2899192260119757 (- 48))
   \<and> finite_double (dbl 5 1) \<and> finite_double (dbl 2899192260119757 (- 48))
   \<and> finite_double (dbl 1 (- 1))
   \<and> \<not> flt (dbl 1 (- 1)) (fabs (fsub (dbl 2899192260119757 (- 48)) (dbl 5 1)))"
proof -
  let ?dz = "dbl 1152921504606847 (- 60)"
  let ?p = "3602879701896397 * 2 ^ 1019 :: int"
  let ?c = "2 ^ 1074 :: int"
  let ?m = "3602879701896397 * 2 ^ 1020 :: int"
  let ?s = "1351079888211149 * 2 ^ 1022 :: int"
  let ?self = "\<lparr>joint_limits_fp = [], max_velocity_fp = Fin ?m, deadzone_fp = ?dz,
      timeout_ms_fp = dbl 500 0, last_action_fp = [(''j'', Fin ?p)],
      last_input_time_fp = dbl 1 0, enabled_fp = True, e_stopped_fp = False\<rparr>"
  have d: "dbl 3602879701896397 (- 55) = Fin ?p" "dbl 1 0 = Fin ?c"
    "dbl 3602879701896397 (- 54) = Fin ?m" "dbl 1351079888211149 (- 52) = Fin ?s"
    by (simp_all add: dbl_def)
  have v: "dbl 3602879701896397 (- 54) = dbl 230584300921369408 (- 60)"
    "dbl 3602879701896397 (- 55) = dbl 115292150460684704 (- 60)"
    "dbl 1 0 = dbl 1152921504606846976 (- 60)"
    "dbl 1351079888211149 (- 52) = dbl 345876451382054144 (- 60)"
    "dbl 5 1 = dbl 11529215046068469760 (- 60)"
    "dbl 2899192260119757 (- 48) = dbl 11875091497450524672 (- 60)"
    "dbl 1 (- 1) = dbl 576460752303423488 (- 60)"
    by (simp_all add: dbl_def)
  have r: "round53 1037629354146162272 = 1037629354146162304"
    "round53 345876451382054112 = 345876451382054144"
    "round53 230584300921369440 = 230584300921369440"
    "round53 345876451382054912 = 345876451382054912"
    by code_simp+
  have self: "snd (filter_action_fp (dbl 1 0)
           (SafetyFilter_fp_init None (dbl 3602879701896397 (- 54)) ?dz (dbl 500 0) (dbl 0 0))
           [(''j'', dbl 3602879701896397 (- 55))]) = ?self"
    by (simp add: eval_filter_fp eval_fp dbl_def)
  have h1: "fst (filter_action_fp (dbl 2 0) ?self [(''j'', dbl 1 0)]) = Some [(''j'', Fin ?s)]"
    unfolding d [symmetric] unfolding v by (simp add: eval_filter_fp eval_fp r)
  have h2: "enabled_fp ?self" by simp
  have h3: "distinct (map fst [(''j'', dbl 1 0)])" by simp
  have h4: "map_of [(''j'', dbl 1 0)] ''j'' = Some (dbl 1 0)" by simp
  have h5: "map_of (last_action_fp ?self) ''j'' = Some (Fin ?p)" by simp
  have h6: "clamp_fp (joint_limits_fp ?self) ''j'' (dbl 1 0) = Fin ?c"
    by (simp add: clamp_fp_def dbl_def)
  have h7: "max_velocity_fp ?self = Fin ?m" by simp
  have h8: "0 \<le> ?m" by simp
  have f1: "finite_double (dbl 3602879701896397 (- 55))"
    and f2: "finite_double (dbl 1 0)"
    and f3: "finite_double (dbl 3602879701896397 (- 54))"
    by (simp_all add: finite_double_dbl)
  have ex: "flt (dbl 3602879701896397 (- 54)) (fabs (fsub (dbl 1 0) (dbl 3602879701896397 (- 55))))"
    unfolding v by (simp add: eval_fp r)
  have order: "flt (dbl 3602879701896397 (- 55)) (dbl 1351079888211149 (- 52))"
    "flt (dbl 1351079888211149 (- 52)) (dbl 1 0)"
    unfolding v by (simp_all add: flt_dbl)
  note up = velocity_step_in_doubles [OF h1 h2 h3 h4 h5 h6 h7 h8 f1 [unfolded d] f2 [unfolded d]
      f3 [unfolded d] refl refl, THEN conjunct1]
  have mem: "map_of (last_action_fp (snd (filter_action_fp (dbl 2 0) ?self [(''j'', dbl 1 0)]))) ''j''
      = Some (Fin ?s)"
    by (rule trans [OF up]) simp
  have a1: "fst (filter_action_fp (dbl 2 0)
        (snd (filter_action_fp (dbl 1 0)
           (SafetyFilter_fp_init None (dbl 3602879701896397 (- 54)) ?dz (dbl 500 0) (dbl 0 0))
           [(''j'', dbl 3602879701896397 (- 55))]))
        [(''j'', dbl 1 0)]) = Some [(''j'', dbl 1351079888211149 (- 52))]"
    unfolding self d(4) by (rule h1)
  have a2: "map_of (last_action_fp (snd (filter_action_fp (dbl 2 0)
        (snd (filter_action_fp (dbl 1 0)
           (SafetyFilter_fp_init None (dbl 3602879701896397 (- 54)) ?dz (dbl 500 0) (dbl 0 0))
           [(''j'', dbl 3602879701896397 (- 55))]))
        [(''j'', dbl 1 0)]))) ''j'' = Some (dbl 1351079888211149 (- 52))"
    unfolding self d(4) by (rule mem)
  let ?p' = "5 * 2 ^ 1075 :: int"
  let ?c' = "2899192260119757 * 2 ^ 1026 :: int"
  let ?m' = "2 ^ 1073 :: int"
  let ?self' = "\<lparr>joint_limits_fp = [], max_velocity_fp = Fin ?m', deadzone_fp = ?dz,
      timeout_ms_fp = dbl 500 0, last_action_fp = [(''j'', Fin ?p')],
      last_input_time_fp = dbl 1 0, enabled_fp = True, e_stopped_fp = False\<rparr>"
  have d': "dbl 5 1 = Fin ?p'" "dbl 2899192260119757 (- 48) = Fin ?c'" "dbl 1 (- 1) = Fin ?m'"
    by (simp_all add: dbl_def)
  have self': "snd (filter_action_fp (dbl 1 0)
           (SafetyFilter_fp_init None (dbl 1 (- 1)) ?dz (dbl 500 0) (dbl 0 0))
           [(''j'', dbl 5 1)]) = ?self'"
    by (simp add: eval_filter_fp eval_fp dbl_def)
  have k1: "fst (filter_action_fp (dbl 2 0) ?self' [(''j'', dbl 2899192260119757 (- 48))])
      = Some [(''j'', dbl 2899192260119757 (- 48))]"
    unfolding d' [symmetric] unfolding v by (simp add: eval_filter_fp eval_fp r)
  have k2: "enabled_fp ?self'" by simp
  have k3: "distinct (map fst [(''j'', dbl 2899192260119757 (- 48))])" by simp
  have k4: "map_of [(''j'', dbl 2899192260119757 (- 48))] ''j'' = Some (dbl 2899192260119757 (- 48))"
    by simp
  have k5: "map_of (last_action_fp ?self') ''j'' = Some (Fin ?p')" by simp
  have k6: "clamp_fp (joint_limits_fp ?self') ''j'' (dbl 2899192260119757 (- 48)) = Fin ?c'"
    by (simp add: clamp_fp_def dbl_def)
  have k7: "max_velocity_fp ?self' = Fin ?m'" by simp
  have k8: "0 \<le> ?m'" by simp
  have g1: "finite_double (dbl 5 1)"
    and g2: "finite_double (dbl 2899192260119757 (- 48))"
    and g3: "finite_double (dbl 1 (- 1))"
    by (simp_all add: finite_double_dbl)
  have within: "\<not> flt (dbl 1 (- 1)) (fabs (fsub (dbl 2899192260119757 (- 48)) (dbl 5 1)))"
    unfolding v by (simp add: eval_fp r)
  note pass = velocity_step_in_doubles [OF k1 k2 k3 k4 k5 k6 k7 k8 g1 [unfolded d'] g2 [unfolded d']
      g3 [unfolded d'] refl refl, THEN conjunct1]
  have mem': "map_of (last_action_fp (snd (filter_action_fp (dbl 2 0) ?self'
        [(''j'', dbl 2899192260119757 (- 48))]))) ''j'' = Some (dbl 2899192260119757 (- 48))"
    by (rule trans [OF pass]) simp
  have b1: "fst (filter_action_fp (dbl 2 0)
        (snd (filter_action_fp (dbl 1 0)
           (SafetyFilter_fp_init None (dbl 1 (- 1)) ?dz (dbl 500 0) (dbl 0 0))
           [(''j'', dbl 5 1)]))
        [(''j'', dbl 2899192260119757 (- 48))]) = Some [(''j'', dbl 2899192260119757 (- 48))]"
    unfolding self' by (rule k1)
  have b2: "map_of (last_action_fp (snd (filter_action_fp (dbl 2 0)
        (snd (filter_action_fp (dbl 1 0)
           (SafetyFilter_fp_init None (dbl 1 (- 1)) ?dz (dbl 500 0) (dbl 0 0))
           [(''j'', dbl 5 1)]))
        [(''j'', dbl 2899192260119757 (- 48))]))) ''j'' = Some (dbl 2899192260119757 (- 48))"
    unfolding self' by (rule mem')
  from a1 a2 f1 f2 f3 ex order b1 b2 g1 g2 g3 within show ?thesis
    by (simp only: simp_thms)
qed



text \<open>
  C5. An adapter that is not connected does not always answer \<open>send_action\<close> with its
  input.  \<open>connect\<close> stores the new \<open>PiperFollower\<close> in \<open>self._robot\<close> before it calls the
  follower's own \<open>connect()\<close>; when that call raises, the adapter keeps the handle of a
  follower that is not connected.  \<open>is_connected\<close> is false then, and \<open>send_action\<close> passes
  the action to the follower, which raises \<open>DeviceNotConnectedError\<close>.
\<close>

theorem send_action_dead_handle:
  "\<not> piper_is_connected
       \<lparr>piper_robot = Some (PiperFollower_init
          \<lparr>bus_truthy = True, bus_is_connected = False,
           bus_read = Inl (Exception ''bus is not connected''),
           bus_write = (\<lambda>target. Some (Exception ''bus is not connected'')),
           piper_DisableArm = (\<lambda>n. None), piper_GripperCtrl = (\<lambda>a b c d. None)\<rparr> [])\<rparr>
   \<and> piper_send_action
       \<lparr>piper_robot = Some (PiperFollower_init
          \<lparr>bus_truthy = True, bus_is_connected = False,
           bus_read = Inl (Exception ''bus is not connected''),
           bus_write = (\<lambda>target. Some (Exception ''bus is not connected'')),
           piper_DisableArm = (\<lambda>n. None), piper_GripperCtrl = (\<lambda>a b c d. None)\<rparr> [])\<rparr>
       [(''a'', 1)]
     = (Inl DeviceNotConnectedError,
        \<lparr>piper_robot = Some (PiperFollower_init
          \<lparr>bus_truthy = True, bus_is_connected = False,
           bus_read = Inl (Exception ''bus is not connected''),
           bus_write = (\<lambda>target. Some (Exception ''bus is not connected'')),
           piper_DisableArm = (\<lambda>n. None), piper_GripperCtrl = (\<lambda>a b c d. None)\<rparr> [])\<rparr>,
        [])"
  by (simp add: piper_is_connected_def follower_is_connected_def piper_send_action_def
      follower_send_action_def PiperFollower_init_def)

text \<open>
  C5, as the code has it.  An adapter that holds no robot handle (a new adapter, or one
  after \<open>emergency_stop\<close>) is not connected and answers \<open>send_action(action)\<close> with the input
  action unchanged: nothing is raised, nothing is sent and the adapter stays as it is.  This
  holds for the generic and for the Piper adapter, for every action.
\<close>

theorem send_action_not_connected:
  assumes "generic_robot ga = None" and "piper_robot pa = None"
  shows "\<not> generic_is_connected ga \<and> generic_send_action ga act = (Inr act, ga, [])
     \<and> \<not> piper_is_connected pa \<and> piper_send_action pa act = (Inr act, pa, [])"
  using assms
  by (simp add: generic_is_connected_def generic_send_action_def
      piper_is_connected_def piper_send_action_def)

theorem send_action_not_connected_witness:
  "generic_robot GenericRobotAdapter_init = None \<and> piper_robot PiperRobotAdapter_init = None
   \<and> generic_send_action GenericRobotAdapter_init [(''a'', 1)]
       = (Inr [(''a'', 1)], GenericRobotAdapter_init, [])
   \<and> piper_send_action PiperRobotAdapter_init [(''a'', 1)]
       = (Inr [(''a'', 1)], PiperRobotAdapter_init, [])"
proof -
  have g: "generic_robot GenericRobotAdapter_init = None"
    by (simp add: GenericRobotAdapter_init_def)
  have p: "piper_robot PiperRobotAdapter_init = None"
    by (simp add: PiperRobotAdapter_init_def)
  from send_action_not_connected [OF g p, of "[(''a'', 1)]"] g p show ?thesis by simp
qed

text \<open>
  C6. When \<open>emergency_stop()\<close> has returned, the adapter holds no handle and
  \<open>is_connected\<close> is false, whatever the robot's \<open>disconnect\<close> or the bus commands did,
  raising included.  For the Piper adapter the bus object of the handle counts as true in
  the guard \<open>self._robot and self._robot.bus\<close>, as an object of a plain class does.
\<close>

theorem emergency_stop_leaves_disconnected:
  assumes "piper_bus_truthy pa"
    and "generic_emergency_stop ga = (Inr (), ga', gev)"
    and "piper_emergency_stop pa = (Inr (), pa', pev)"
  shows "generic_robot ga' = None \<and> \<not> generic_is_connected ga'
     \<and> piper_robot pa' = None \<and> \<not> piper_is_connected pa'"
proof -
  from generic_emergency_stop_handle [of ga] assms(2) have g: "generic_robot ga' = None"
    by simp
  from piper_emergency_stop_handle [of pa] assms(1,3) have p: "piper_robot pa' = None"
    by simp
  from g p show ?thesis
    by (simp add: generic_is_connected_def piper_is_connected_def)
qed

theorem emergency_stop_leaves_disconnected_witness:
  "piper_bus_truthy
     \<lparr>piper_robot = Some
        \<lparr>bus = \<lparr>bus_truthy = True, bus_is_connected = True, bus_read = Inr [],
                bus_write = (\<lambda>target. None),
                piper_DisableArm = (\<lambda>n. Some (Exception ''CAN send failed'')),
                piper_GripperCtrl = (\<lambda>a b c d. None)\<rparr>,
         is_connected_flag = True, cameras_connected = []\<rparr>\<rparr>
   \<and> generic_emergency_stop
       \<lparr>generic_robot = Some
          \<lparr>robot_is_connected = True, robot_disconnect = Some (Exception ''port closed''),
           robot_send_action = Inr, robot_get_observation = Inr []\<rparr>,
        generic_robot_type = ''so100_follower''\<rparr>
     = (Inr (), \<lparr>generic_robot = None, generic_robot_type = ''so100_follower''\<rparr>,
        [Robot_disconnect, Log_error ''Emergency stop error'' (Exception ''port closed'')])
   \<and> piper_emergency_stop
       \<lparr>piper_robot = Some
          \<lparr>bus = \<lparr>bus_truthy = True, bus_is_connected = True, bus_read = Inr [],
                  bus_write = (\<lambda>target. None),
                  piper_DisableArm = (\<lambda>n. Some (Exception ''CAN send failed'')),
                  piper_GripperCtrl = (\<lambda>a b c d. None)\<rparr>,
           is_connected_flag = True, cameras_connected = []\<rparr>\<rparr>
     = (Inr (), \<lparr>piper_robot = None\<rparr>,
        [Piper_DisableArm 7, Log_error ''E-STOP error'' (Exception ''CAN send failed'')])
   \<and> \<not> generic_is_connected \<lparr>generic_robot = None, generic_robot_type = ''so100_follower''\<rparr>
   \<and> \<not> piper_is_connected \<lparr>piper_robot = None\<rparr>"
proof -
  let ?ga = "\<lparr>generic_robot = Some
          \<lparr>robot_is_connected = True, robot_disconnect = Some (Exception ''port closed''),
           robot_send_action = Inr, robot_get_observation = Inr []\<rparr>,
        generic_robot_type = ''so100_follower''\<rparr>"
  let ?pa = "\<lparr>piper_robot = Some
          \<lparr>bus = \<lparr>bus_truthy = True, bus_is_connected = True, bus_read = Inr [],
                  bus_write = (\<lambda>target. None),
                  piper_DisableArm = (\<lambda>n. Some (Exception ''CAN send failed'')),
                  piper_GripperCtrl = (\<lambda>a b c d. None)\<rparr>,
           is_connected_flag = True, cameras_connected = []\<rparr>\<rparr>"
  have h1: "piper_bus_truthy ?pa" by (simp add: piper_bus_truthy_def)
  have h2: "generic_emergency_stop ?ga
     = (Inr (), \<lparr>generic_robot = None, generic_robot_type = ''so100_follower''\<rparr>,
        [Robot_disconnect, Log_error ''Emergency stop error'' (Exception ''port closed'')])"
    by (simp add: generic_emergency_stop_def)
  have h3: "piper_emergency_stop ?pa
     = (Inr (), \<lparr>piper_robot = None\<rparr>,
        [Piper_DisableArm 7, Log_error ''E-STOP error'' (Exception ''CAN send failed'')])"
    by (simp add: piper_emergency_stop_def)
  from emergency_stop_leaves_disconnected [OF h1 h2 h3] h1 h2 h3 show ?thesis by simp
qed

text \<open>
  C7. \<open>emergency_stop()\<close> called again right after an \<open>emergency_stop()\<close> that returned
  does nothing: it returns without an exception, calls nothing on any robot, logs nothing and
  leaves the adapter as it is.
\<close>

theorem emergency_stop_twice:
  assumes "generic_emergency_stop ga = (Inr (), ga', gev)"
    and "piper_emergency_stop pa = (Inr (), pa', pev)"
  shows "generic_emergency_stop ga' = (Inr (), ga', [])
     \<and> piper_emergency_stop pa' = (Inr (), pa', [])"
proof -
  from generic_emergency_stop_handle [of ga] assms(1) have "generic_robot ga' = None"
    by simp
  then have g: "generic_emergency_stop ga' = (Inr (), ga', [])"
    by (simp add: generic_emergency_stop_def)
  from assms(2) have "piper_robot pa' = None
      \<or> (\<exists>r. piper_robot pa' = Some r \<and> \<not> bus_truthy (bus r))"
    by (auto simp: piper_emergency_stop_def split: option.splits if_splits)
  then have p: "piper_emergency_stop pa' = (Inr (), pa', [])"
    by (auto simp: piper_emergency_stop_def)
  from g p show ?thesis by simp
qed

theorem emergency_stop_twice_witness:
  "generic_emergency_stop
       \<lparr>generic_robot = Some
          \<lparr>robot_is_connected = True, robot_disconnect = None,
           robot_send_action = Inr, robot_get_observation = Inr []\<rparr>,
        generic_robot_type = ''so100_follower''\<rparr>
     = (Inr (), \<lparr>generic_robot = None, generic_robot_type = ''so100_follower''\<rparr>, [Robot_disconnect])
   \<and> piper_emergency_stop
       \<lparr>piper_robot = Some
          \<lparr>bus = \<lparr>bus_truthy = True, bus_is_connected = True, bus_read = Inr [],
                  bus_write = (\<lambda>target. None),
                  piper_DisableArm = (\<lambda>n. None),
                  piper_GripperCtrl = (\<lambda>a b c d. None)\<rparr>,
           is_connected_flag = True, cameras_connected = []\<rparr>\<rparr>
     = (Inr (), \<lparr>piper_robot = None\<rparr>,
        [Piper_DisableArm 7, Piper_GripperCtrl 0 1000 2 0, Log_warning ''PIPER E-STOP: arm disabled''])
   \<and> generic_emergency_stop \<lparr>generic_robot = None, generic_robot_type = ''so100_follower''\<rparr>
     = (Inr (), \<lparr>generic_robot = None, generic_robot_type = ''so100_follower''\<rparr>, [])
   \<and> piper_emergency_stop \<lparr>piper_robot = None\<rparr> = (Inr (), \<lparr>piper_robot = None\<rparr>, [])"
proof -
  let ?ga = "\<lparr>generic_robot = Some
          \<lparr>robot_is_connected = True, robot_disconnect = None,
           robot_send_action = Inr, robot_get_observation = Inr []\<rparr>,
        generic_robot_type = ''so100_follower''\<rparr>"
  let ?pa = "\<lparr>piper_robot = Some
          \<lparr>bus = \<lparr>bus_truthy = True, bus_is_connected = True, bus_read = Inr [],
                  bus_write = (\<lambda>target. None),
                  piper_DisableArm = (\<lambda>n. None),
                  piper_GripperCtrl = (\<lambda>a b c d. None)\<rparr>,
           is_connected_flag = True, cameras_connected = []\<rparr>\<rparr>"
  have h1: "generic_emergency_stop ?ga
     = (Inr (), \<lparr>generic_robot = None, generic_robot_type = ''so100_follower''\<rparr>, [Robot_disconnect])"
    by (simp add: generic_emergency_stop_def)
  have h2: "piper_emergency_stop ?pa
     = (Inr (), \<lparr>piper_robot = None\<rparr>,
        [Piper_DisableArm 7, Piper_GripperCtrl 0 1000 2 0, Log_warning ''PIPER E-STOP: arm disabled''])"
    by (simp add: piper_emergency_stop_def)
  from emergency_stop_twice [OF h1 h2] h1 h2 show ?thesis by simp
qed

text \<open>
  C8. An adapter that is not connected does not always answer \<open>get_state\<close> with the empty
  mapping.  \<open>connect\<close> stores the robot in \<open>self._robot\<close> before it calls the robot's own
  \<open>connect()\<close>; when that call raises, the adapter keeps the handle of a robot that is not
  connected.  \<open>is_connected\<close> is false then, and \<open>get_state\<close> asks the robot for an
  observation; a robot that is not connected raises \<open>DeviceNotConnectedError\<close>, as
  \<open>PiperFollower.get_observation\<close> does.
\<close>

theorem get_state_dead_handle:
  "\<not> generic_is_connected
       \<lparr>generic_robot = Some
          \<lparr>robot_is_connected = False, robot_disconnect = None,
           robot_send_action = (\<lambda>act. Inl DeviceNotConnectedError),
           robot_get_observation = Inl DeviceNotConnectedError\<rparr>,
        generic_robot_type = ''piper_follower''\<rparr>
   \<and> generic_get_state
       \<lparr>generic_robot = Some
          \<lparr>robot_is_connected = False, robot_disconnect = None,
           robot_send_action = (\<lambda>act. Inl DeviceNotConnectedError),
           robot_get_observation = Inl DeviceNotConnectedError\<rparr>,
        generic_robot_type = ''piper_follower''\<rparr>
     = (Inl DeviceNotConnectedError,
        \<lparr>generic_robot = Some
          \<lparr>robot_is_connected = False, robot_disconnect = None,
           robot_send_action = (\<lambda>act. Inl DeviceNotConnectedError),
           robot_get_observation = Inl DeviceNotConnectedError\<rparr>,
        generic_robot_type = ''piper_follower''\<rparr>,
        [Robot_get_observation])"
  by (simp add: generic_is_connected_def generic_get_state_def)

text \<open>
  C8, as the code has it.  An adapter that holds no robot handle (a new adapter, or one
  after \<open>emergency_stop\<close>) answers \<open>get_state()\<close> with the empty mapping; nothing is
  raised and nothing is read.  This holds for the generic and for the Piper adapter.
\<close>

theorem get_state_not_connected:
  assumes "generic_robot ga = None" and "piper_robot pa = None"
  shows "generic_get_state ga = (Inr [], ga, []) \<and> piper_get_state pa = (Inr [], pa, [])"
  using assms by (simp add: generic_get_state_def piper_get_state_def)

theorem get_state_not_connected_witness:
  "generic_robot GenericRobotAdapter_init = None \<and> piper_robot PiperRobotAdapter_init = None
   \<and> generic_get_state GenericRobotAdapter_init = (Inr [], GenericRobotAdapter_init, [])
   \<and> piper_get_state PiperRobotAdapter_init = (Inr [], PiperRobotAdapter_init, [])"
proof -
  have g: "generic_robot GenericRobotAdapter_init = None"
    by (simp add: GenericRobotAdapter_init_def)
  have p: "piper_robot PiperRobotAdapter_init = None"
    by (simp add: PiperRobotAdapter_init_def)
  from get_state_not_connected [OF g p] g p show ?thesis by simp
qed

text \<open>
  C9. \<open>reset()\<close> clears the emergency-stop flag and the per-channel memory.  The
  \<open>filter_action\<close> call that follows is not constrained by the history before the reset:
  each channel is only clamped to its range, and the returned action is the one a newly
  built filter with the same configuration returns.
\<close>

theorem reset_clears_history:
  assumes "self = run (SafetyFilter_init jl mv dz tmo t0) cs"
  shows "\<not> e_stopped (reset t self) \<and> last_action (reset t self) = []
     \<and> filter_channel (reset t self) key raw = clamp_to_limits (joint_limits self) key raw
     \<and> fst (filter_action now (reset t self) act)
         = fst (filter_action now (SafetyFilter_init jl mv dz tmo tn) act)
     \<and> (distinct (map fst act) \<longrightarrow>
          fst (filter_action now (reset t self) act)
            = Some (map (\<lambda>(k, v). (k, clamp_to_limits (joint_limits self) k v)) act))"
proof -
  let ?r = "reset t self" and ?new = "SafetyFilter_init jl mv dz tmo tn"
  have en: "enabled self"
    and jl: "joint_limits self = (case jl of None \<Rightarrow> [] | Some d \<Rightarrow> d)"
    using assms by (rule reachable_facts)+
  have r: "\<not> e_stopped ?r" "last_action ?r = []" "enabled ?r" "joint_limits ?r = joint_limits self"
    using en by (simp_all add: reset_def)
  have ch: "filter_channel ?r k v = clamp_to_limits (joint_limits self) k v" for k v
    using r by (simp add: filter_channel_no_memory)
  have "filter_channel ?new k v = clamp_to_limits (joint_limits self) k v" for k v
    using jl by (simp add: filter_channel_no_memory SafetyFilter_init_def)
  with ch have "filter_loop ?r act [] = filter_loop ?new act []"
    by (intro filter_loop_cong) simp
  with r have same: "fst (filter_action now ?r act) = fst (filter_action now ?new act)"
    by (simp add: filter_action_armed)
  have "fst (filter_action now ?r act)
      = Some (map (\<lambda>(k, v). (k, clamp_to_limits (joint_limits self) k v)) act)"
    if "distinct (map fst act)"
    using that r ch by (simp add: filter_action_armed filter_loop_map)
  with r ch same show ?thesis by blast
qed

theorem reset_clears_history_witness:
  "\<not> e_stopped (reset 4 (run (SafetyFilter_init (Some [(''j'', (0, 1))]) (1 / 2) (1 / 1000) 500 0)
        [Filter_action 1 [(''j.pos'', 0)], Set_e_stop True]))
   \<and> distinct (map fst [(''j.pos'', 2 :: real)])
   \<and> fst (filter_action 5
        (reset 4 (run (SafetyFilter_init (Some [(''j'', (0, 1))]) (1 / 2) (1 / 1000) 500 0)
           [Filter_action 1 [(''j.pos'', 0)], Set_e_stop True]))
        [(''j.pos'', 2)]) = Some [(''j.pos'', 1)]"
proof -
  let ?self = "run (SafetyFilter_init (Some [(''j'', (0, 1))]) (1 / 2) (1 / 1000) 500 0)
        [Filter_action 1 [(''j.pos'', 0)], Set_e_stop True]"
  have h1: "?self = run (SafetyFilter_init (Some [(''j'', (0, 1))]) (1 / 2) (1 / 1000) 500 0)
        [Filter_action 1 [(''j.pos'', 0)], Set_e_stop True]" by (rule refl)
  have d: "distinct (map fst [(''j.pos'', 2 :: real)])" by simp
  from reset_clears_history [OF h1, where t = 4 and now = 5 and act = "[(''j.pos'', 2)]"
      and key = "''j.pos''" and raw = 2 and tn = 0] d
  have "\<not> e_stopped (reset 4 ?self)"
    and "fst (filter_action 5 (reset 4 ?self) [(''j.pos'', 2)])
       = Some (map (\<lambda>(k, v). (k, clamp_to_limits (joint_limits ?self) k v)) [(''j.pos'', 2)])"
    by blast+
  with d show ?thesis by (simp add: eval_filter)
qed

text \<open>
  C10. A \<open>filter_action\<close> call that returns a filtered action replaces the filter's memory
  by that action, whose channels are exactly those of the input.  A channel that the input
  does not carry has no remembered value afterwards, so on its next appearance it is only
  clamped to its range: neither the velocity limit nor the dead zone applies.
\<close>

theorem filter_action_replaces_memory:
  assumes "self = run (SafetyFilter_init jl mv dz tmo t0) cs"
    and "filter_action now self act = (Some out, self')"
  shows "last_action self' = out \<and> fst ` set out = fst ` set act
     \<and> (key \<notin> fst ` set act \<longrightarrow>
          map_of (last_action self') key = None
          \<and> filter_channel self' key raw = clamp_to_limits (joint_limits self') key raw)"
proof -
  have en: "enabled self"
    using assms(1) by (rule reachable_facts)
  from assms(2) have fst_eq: "fst (filter_action now self act) = Some out"
    and snd_eq: "snd (filter_action now self act) = self'" by simp_all
  have out: "out = filter_loop self act []"
    using en fst_eq by (rule filter_action_Some)
  have "snd (filter_action now self act) = self\<lparr>last_input_time := now, last_action := out\<rparr>"
    using en fst_eq by (rule filter_action_Some)
  with snd_eq have mem: "last_action self' = out" by auto
  have keys: "fst ` set out = fst ` set act"
    by (simp add: out filter_loop_keys)
  have "map_of (last_action self') key = None" if "key \<notin> fst ` set act"
    using that mem keys by (simp add: map_of_eq_None_iff)
  then show ?thesis
    using mem keys by (simp add: filter_channel_no_memory)
qed

theorem filter_action_replaces_memory_witness:
  "filter_action 2 (run (SafetyFilter_init None (1 / 2) (1 / 1000) 500 0)
       [Filter_action 1 [(''a'', 0), (''b'', 0)]]) [(''a'', 1 / 10)]
     = (Some [(''a'', 1 / 10)],
        \<lparr>joint_limits = [], max_velocity = 1 / 2, deadzone = 1 / 1000, timeout_ms = 500,
         last_action = [(''a'', 1 / 10)], last_input_time = 2, enabled = True, e_stopped = False\<rparr>)
   \<and> ''b'' \<notin> fst ` set [(''a'', 1 / 10 :: real)]
   \<and> map_of [(''a'', 1 / 10 :: real)] ''b'' = None
   \<and> fst (filter_action 3
        \<lparr>joint_limits = [], max_velocity = 1 / 2, deadzone = 1 / 1000, timeout_ms = 500,
         last_action = [(''a'', 1 / 10)], last_input_time = 2, enabled = True, e_stopped = False\<rparr>
        [(''b'', 10)]) = Some [(''b'', 10)]"
proof -
  let ?self = "run (SafetyFilter_init None (1 / 2) (1 / 1000) 500 0)
       [Filter_action 1 [(''a'', 0), (''b'', 0)]]"
  let ?self' = "\<lparr>joint_limits = [], max_velocity = 1 / 2, deadzone = 1 / 1000, timeout_ms = 500,
         last_action = [(''a'', 1 / 10)], last_input_time = 2, enabled = True, e_stopped = False\<rparr>"
  have h1: "?self = run (SafetyFilter_init None (1 / 2) (1 / 1000) 500 0)
       [Filter_action 1 [(''a'', 0), (''b'', 0)]]" by (rule refl)
  have h2: "filter_action 2 ?self [(''a'', 1 / 10)] = (Some [(''a'', 1 / 10)], ?self')"
    by (simp add: eval_filter)
  have h3: "''b'' \<notin> fst ` set [(''a'', 1 / 10 :: real)]" by simp
  have run: "fst (filter_action 3 ?self' [(''b'', 10)]) = Some [(''b'', 10)]"
    by (simp add: eval_filter)
  from filter_action_replaces_memory [OF h1 h2, of "''b''" 10] h2 h3 run
  show ?thesis by (simp add: clamp_to_limits_def)
qed

end
